theory Spec2Isabelle
  imports Complex_Main "HOL-Library.Char_ord" "HOL-Library.List_Lexorder" "HOL-Library.Sublist"
    "HOL-Library.Multiset"
begin

section \<open>Modelling conventions\<close>

text \<open>
  The development embeds the TypeScript sources of the plugin
  (\<^verbatim>\<open>metadata-parser.ts\<close>, \<^verbatim>\<open>link-resolver.ts\<close>, \<^verbatim>\<open>content-loader.ts\<close>,
  \<^verbatim>\<open>sidebar-generator.ts\<close>) as HOL functions.

  \<^item> A JavaScript string is a \<^typ>\<open>string\<close>: a list of code units. Only code units
    below 256 are represented (ASCII and Latin-1).
  \<^item> A JavaScript number is modelled by the rational number it denotes; the two zeros
    are one number, as they are for \<open>===\<close>. Where the sources compute with numbers (the
    numeric literals of the metadata, \<open>parseInt\<close>, the success rate) every result is
    rounded to the nearest IEEE double, ties to the even significand. \<open>NaN\<close> and the
    infinities are not values of the model: a numeral too large for a finite double is
    outside it.
  \<^item> \<open>Record<string, any>\<close> is a partial map from keys to values; the enumeration order
    of keys is not represented.
  \<^item> Exceptions are values: a computation that may throw returns \<open>string + 'a\<close> with
    \<open>Inl\<close> carrying the error message.
  \<^item> Functions of the Node.js library (\<open>path.join\<close>, \<open>path.basename\<close>) are modelled for
    the POSIX platform, where \<open>path.sep\<close> is \<open>/\<close>.
  \<^item> Console output is not represented. A \<open>catch\<close> clause that no statement of its
    \<open>try\<close> block can reach in this model (the one of \<open>resolveSingleLink\<close>, the outer one
    of \<open>loadContent\<close>) is left out.
\<close>

section \<open>JavaScript strings and arrays\<close>

abbreviation DQUOTE :: char where "DQUOTE \<equiv> CHR 0x22"
abbreviation SQUOTE :: char where "SQUOTE \<equiv> CHR 0x27"
abbreviation NEWLINE :: char where "NEWLINE \<equiv> CHR 0x0A"
abbreviation BACKSLASH :: char where "BACKSLASH \<equiv> CHR 0x5C"

text \<open>
  The code units that \<open>String.prototype.trim\<close> strips and the regular expression class
  \<open>\s\<close> accepts (white space and line terminators below 256): tab, line feed, vertical
  tab, form feed, carriage return, space and no-break space.
\<close>

definition is_space :: "char \<Rightarrow> bool" where
  "is_space c = (c \<in> set [CHR 0x09, CHR 0x0A, CHR 0x0B, CHR 0x0C, CHR 0x0D, CHR 0x20, CHR 0xA0])"

definition is_digit :: "char \<Rightarrow> bool" where
  "is_digit c = (c \<in> set ''0123456789'')"

text \<open>The regular expression class \<open>\w\<close>.\<close>

definition is_word :: "char \<Rightarrow> bool" where
  "is_word c = (c \<in> set ''abcdefghijklmnopqrstuvwxyzABCDEFGHIJKLMNOPQRSTUVWXYZ0123456789_'')"

text \<open>Line terminators below 256: the code units that \<open>.\<close> refuses and \<open>^\<close>, \<open>$\<close> see.\<close>

definition is_line_terminator :: "char \<Rightarrow> bool" where
  "is_line_terminator c = (c = CHR 0x0A \<or> c = CHR 0x0D)"

definition trim :: "string \<Rightarrow> string" where
  "trim s = rev (dropWhile is_space (rev (dropWhile is_space s)))"

definition startsWith :: "string \<Rightarrow> string \<Rightarrow> bool" where
  "startsWith s p = prefix p s"

definition endsWith :: "string \<Rightarrow> string \<Rightarrow> bool" where
  "endsWith s p = suffix p s"

definition includes_str :: "string \<Rightarrow> string \<Rightarrow> bool" where
  "includes_str s p = sublist p s"

text \<open>\<open>indexOf\<close>: the position of the first occurrence; \<open>None\<close> stands for \<open>-1\<close>.\<close>

fun indexOf :: "string \<Rightarrow> string \<Rightarrow> nat option" where
  "indexOf [] p = (if p = [] then Some 0 else None)"
| "indexOf (c # cs) p =
     (if prefix p (c # cs) then Some 0 else map_option Suc (indexOf cs p))"

text \<open>\<open>slice(b, e)\<close> of strings and arrays, with negative indices counted from the end.\<close>

definition slice :: "'a list \<Rightarrow> int \<Rightarrow> int \<Rightarrow> 'a list" where
  "slice xs b e =
     (let n = int (length xs);
          start = (if b < 0 then max (n + b) 0 else min b n);
          stop = (if e < 0 then max (n + e) 0 else min e n)
      in take (nat (stop - start)) (drop (nat start) xs))"

text \<open>\<open>split(c)\<close> at a one-character separator.\<close>

fun split :: "string \<Rightarrow> char \<Rightarrow> string list" where
  "split [] c = [[]]"
| "split (x # xs) c =
     (if x = c then [] # split xs c
      else (case split xs c of [] \<Rightarrow> [[x]] | w # ws \<Rightarrow> (x # w) # ws))"

fun join :: "string list \<Rightarrow> string \<Rightarrow> string" where
  "join [] sep = []"
| "join [x] sep = x"
| "join (x # y # ys) sep = x @ sep @ join (y # ys) sep"

text \<open>
  \<open>toLowerCase\<close> on code units below 256: the ASCII capitals and the Latin-1 capitals
  (\<open>0xC0\<close> to \<open>0xDE\<close> without the multiplication sign \<open>0xD7\<close>) move up by 32.
\<close>

definition upper_units :: string where
  "upper_units = ''ABCDEFGHIJKLMNOPQRSTUVWXYZ'' @
     [CHR 0xC0, CHR 0xC1, CHR 0xC2, CHR 0xC3, CHR 0xC4, CHR 0xC5, CHR 0xC6, CHR 0xC7,
      CHR 0xC8, CHR 0xC9, CHR 0xCA, CHR 0xCB, CHR 0xCC, CHR 0xCD, CHR 0xCE, CHR 0xCF,
      CHR 0xD0, CHR 0xD1, CHR 0xD2, CHR 0xD3, CHR 0xD4, CHR 0xD5, CHR 0xD6,
      CHR 0xD8, CHR 0xD9, CHR 0xDA, CHR 0xDB, CHR 0xDC, CHR 0xDD, CHR 0xDE]"

definition lower_units :: string where
  "lower_units = ''abcdefghijklmnopqrstuvwxyz'' @
     [CHR 0xE0, CHR 0xE1, CHR 0xE2, CHR 0xE3, CHR 0xE4, CHR 0xE5, CHR 0xE6, CHR 0xE7,
      CHR 0xE8, CHR 0xE9, CHR 0xEA, CHR 0xEB, CHR 0xEC, CHR 0xED, CHR 0xEE, CHR 0xEF,
      CHR 0xF0, CHR 0xF1, CHR 0xF2, CHR 0xF3, CHR 0xF4, CHR 0xF5, CHR 0xF6,
      CHR 0xF8, CHR 0xF9, CHR 0xFA, CHR 0xFB, CHR 0xFC, CHR 0xFD, CHR 0xFE]"

definition lower_char :: "char \<Rightarrow> char" where
  "lower_char c = (case map_of (zip upper_units lower_units) c of None \<Rightarrow> c | Some d \<Rightarrow> d)"

definition toLowerCase :: "string \<Rightarrow> string" where
  "toLowerCase s = map lower_char s"

text \<open>
  \<open>toUpperCase\<close> of one code unit of the class \<open>\w\<close>, the only place where the sources
  use it on a model string: the ASCII small letters move down by 32.
\<close>

definition upper_word_char :: "char \<Rightarrow> char" where
  "upper_word_char c =
     (case map_of (zip (take 26 lower_units) (take 26 upper_units)) c of None \<Rightarrow> c | Some d \<Rightarrow> d)"

text \<open>Decimal digits: the value of a digit string and the digits of a number.\<close>

definition digit_val :: "char \<Rightarrow> nat" where
  "digit_val c = (case indexOf ''0123456789'' [c] of None \<Rightarrow> 0 | Some d \<Rightarrow> d)"

definition digits_val :: "string \<Rightarrow> int" where
  "digits_val ds = foldl (\<lambda>a c. 10 * a + int (digit_val c)) 0 ds"

function show_nat :: "nat \<Rightarrow> string" where
  "show_nat n = (if n < 10 then [''0123456789'' ! n] else show_nat (n div 10) @ [''0123456789'' ! (n mod 10)])"
  by pat_completeness auto
termination
  by (relation "measure id") auto

declare show_nat.simps [simp del]

section \<open>Numbers\<close>

text \<open>
  The Number value of a rational \<open>x\<close>: the nearest IEEE double, ties to the even
  significand. \<open>pow2 e\<close> is the power of two with exponent \<open>e\<close>; \<open>exponent x\<close> is the
  largest \<open>e\<close> with \<open>pow2 e \<le> \<bar>x\<bar>\<close>; a double has 53 significant bits and no exponent
  below \<open>-1022\<close>, so that \<open>x\<close> is rounded to a multiple of \<open>pow2 (max e (-1022) - 52)\<close>.
  The runtime gives an infinity when the rounded magnitude reaches \<open>2 ^ 1024\<close>; the bound
  on the exponent is not applied here, and \<open>finite_double\<close> says that it is not reached.
\<close>

definition pow2 :: "int \<Rightarrow> rat" where
  "pow2 e = (if 0 \<le> e then 2 ^ nat e else 1 / 2 ^ nat (- e))"

function bit_length :: "int \<Rightarrow> int" where
  "bit_length n = (if n \<le> 0 then 0 else 1 + bit_length (n div 2))"
  by pat_completeness auto
termination
  by (relation "measure nat") auto

declare bit_length.simps [simp del]

definition exponent :: "rat \<Rightarrow> int" where
  "exponent x =
     (let a = bit_length (fst (quotient_of \<bar>x\<bar>)) - bit_length (snd (quotient_of \<bar>x\<bar>))
      in if pow2 a \<le> \<bar>x\<bar> then a else a - 1)"

definition round_half_even :: "rat \<Rightarrow> int" where
  "round_half_even y =
     (let f = \<lfloor>y\<rfloor>; r = y - of_int f
      in if r < 1 / 2 then f else if 1 / 2 < r then f + 1 else if even f then f else f + 1)"

definition toDouble :: "rat \<Rightarrow> rat" where
  "toDouble x =
     (if x = 0 then 0
      else (let q = pow2 (max (exponent x) (- 1022) - 52)
            in of_int (round_half_even (x / q)) * q))"

definition finite_double :: "rat \<Rightarrow> bool" where
  "finite_double x = (\<bar>toDouble x\<bar> < 2 ^ 1024)"

text \<open>
  The product and the quotient of two doubles. The sources divide by the length of a
  non-empty array and by 100 only, never by zero.
\<close>

definition double_mul :: "rat \<Rightarrow> rat \<Rightarrow> rat" where
  "double_mul a b = toDouble (a * b)"

definition double_div :: "rat \<Rightarrow> rat \<Rightarrow> rat" where
  "double_div a b = toDouble (a / b)"

text \<open>\<open>Math.round\<close>: the nearest integer, ties towards plus infinity.\<close>

definition Math_round :: "rat \<Rightarrow> int" where
  "Math_round x = \<lfloor>x + 1 / 2\<rfloor>"

section \<open>Regular expressions\<close>

text \<open>
  The sources scan text with JavaScript regular expressions. They are embedded as values
  of the type \<open>re\<close> and run by a backtracking matcher that returns every way to match in
  the order in which the JavaScript matcher tries them, so that the head of the list is
  the match JavaScript reports.
\<close>

datatype re =
    Atom "char \<Rightarrow> bool"
  | Empty
  | Cat re re
  | Or re re
  | Rep bool re
  | Group nat re
  | Bol bool
  | Eol bool

text \<open>
  \<open>Atom p\<close> is one code unit satisfying \<open>p\<close>; \<open>Rep True r\<close> is the greedy \<open>r*\<close> and
  \<open>Rep False r\<close> the lazy \<open>r*?\<close>; \<open>Group n r\<close> is the n-th capturing group; \<open>Bol m\<close> and
  \<open>Eol m\<close> are \<open>^\<close> and \<open>$\<close>, with \<open>m\<close> the multiline flag.

  A matcher state holds the text before the current position (reversed), the text after
  it and the captures so far.
\<close>

type_synonym captures = "nat \<Rightarrow> string option"
type_synonym mstate = "string \<times> string \<times> captures"

definition Lit :: "string \<Rightarrow> re" where
  "Lit s = foldr (\<lambda>c r. Cat (Atom (\<lambda>x. x = c)) r) s Empty"

definition Plus :: "bool \<Rightarrow> re \<Rightarrow> re" where
  "Plus g r = Cat r (Rep g r)"

definition Opt :: "re \<Rightarrow> re" where
  "Opt r = Or r Empty"

definition set_capture :: "nat \<Rightarrow> string \<Rightarrow> mstate \<Rightarrow> mstate" where
  "set_capture n bef s =
     (fst s, fst (snd s),
      (snd (snd s))(n \<mapsto> rev (take (length (fst s) - length bef) (fst s))))"

function ms :: "re \<Rightarrow> mstate \<Rightarrow> mstate list" where
  "ms (Atom p) (bef, rest, caps) =
     (case rest of [] \<Rightarrow> [] | c # cs \<Rightarrow> if p c then [(c # bef, cs, caps)] else [])"
| "ms Empty (bef, rest, caps) = [(bef, rest, caps)]"
| "ms (Cat a b) (bef, rest, caps) = concat (map (ms b) (ms a (bef, rest, caps)))"
| "ms (Or a b) (bef, rest, caps) = ms a (bef, rest, caps) @ ms b (bef, rest, caps)"
| "ms (Rep greedy r) (bef, rest, caps) =
     (if greedy
      then concat (map (\<lambda>s. if length (fst (snd s)) < length rest then ms (Rep greedy r) s else [])
                       (ms r (bef, rest, caps))) @ [(bef, rest, caps)]
      else (bef, rest, caps) #
           concat (map (\<lambda>s. if length (fst (snd s)) < length rest then ms (Rep greedy r) s else [])
                       (ms r (bef, rest, caps))))"
| "ms (Group n r) (bef, rest, caps) = map (set_capture n bef) (ms r (bef, rest, caps))"
| "ms (Bol m) (bef, rest, caps) =
     (if bef = [] \<or> (m \<and> is_line_terminator (hd bef)) then [(bef, rest, caps)] else [])"
| "ms (Eol m) (bef, rest, caps) =
     (if rest = [] \<or> (m \<and> is_line_terminator (hd rest)) then [(bef, rest, caps)] else [])"
  by pat_completeness auto
termination
  by (relation "measures [\<lambda>(r, s). size r, \<lambda>(r, s). length (fst (snd s))]") auto

text \<open>
  The result of a successful match: the matched text (\<open>match[0]\<close>) and the captures.
\<close>

type_synonym rmatch = "string \<times> captures"

definition mk_match :: "string \<Rightarrow> mstate \<Rightarrow> rmatch" where
  "mk_match bef s = (rev (take (length (fst s) - length bef) (fst s)), snd (snd s))"

definition no_captures :: captures where
  "no_captures = (\<lambda>n. None)"

text \<open>
  \<open>search\<close> is \<open>String.prototype.match\<close> and \<open>RegExp.prototype.test\<close> without the global
  flag: the first position, from the left, at which the expression matches.
\<close>

fun search :: "re \<Rightarrow> string \<Rightarrow> string \<Rightarrow> rmatch option" where
  "search r bef [] =
     (case ms r (bef, [], no_captures) of [] \<Rightarrow> None | s # ss \<Rightarrow> Some (mk_match bef s))"
| "search r bef (c # cs) =
     (case ms r (bef, c # cs, no_captures) of
        [] \<Rightarrow> search r (c # bef) cs
      | s # ss \<Rightarrow> Some (mk_match bef s))"

definition re_match :: "re \<Rightarrow> string \<Rightarrow> rmatch option" where
  "re_match r s = search r [] s"

definition re_test :: "re \<Rightarrow> string \<Rightarrow> bool" where
  "re_test r s = (re_match r s \<noteq> None)"

text \<open>
  \<open>matchAll\<close> with the global flag: the successive non-overlapping matches from the
  left. After an empty match the scan moves on by one code unit.
\<close>

function matchAll_from :: "re \<Rightarrow> string \<Rightarrow> string \<Rightarrow> rmatch list" where
  "matchAll_from r bef rest =
     (case ms r (bef, rest, no_captures) of
        [] \<Rightarrow> (case rest of [] \<Rightarrow> [] | c # cs \<Rightarrow> matchAll_from r (c # bef) cs)
      | s # ss \<Rightarrow>
          mk_match bef s #
          (if length (fst (snd s)) < length rest then matchAll_from r (fst s) (fst (snd s))
           else (case rest of [] \<Rightarrow> [] | c # cs \<Rightarrow> matchAll_from r (c # bef) cs)))"
  by pat_completeness auto
termination
  by (relation "measure (\<lambda>(r, bef, rest). length rest)") auto

declare matchAll_from.simps [simp del]

definition matchAll :: "re \<Rightarrow> string \<Rightarrow> rmatch list" where
  "matchAll r s = matchAll_from r [] s"

section \<open>Replacement and the simple patterns\<close>

text \<open>
  \<open>String.prototype.replace\<close> with a string pattern replaces the first occurrence only,
  and the replacement text is expanded: \<open>$$\<close> is a dollar sign, \<open>$&\<close> the matched text,
  \<open>$`\<close> the text before the match and \<open>$'\<close> the text after it.
\<close>

fun split_first :: "string \<Rightarrow> string \<Rightarrow> (string \<times> string) option" where
  "split_first [] p = (if p = [] then Some ([], []) else None)"
| "split_first (c # cs) p =
     (if prefix p (c # cs) then Some ([], drop (length p) (c # cs))
      else map_option (\<lambda>ba. (c # fst ba, snd ba)) (split_first cs p))"

fun expand_replacement :: "string \<Rightarrow> string \<Rightarrow> string \<Rightarrow> string \<Rightarrow> string" where
  "expand_replacement [] m b a = []"
| "expand_replacement [c] m b a = [c]"
| "expand_replacement (c # d # ds) m b a =
     (if c = CHR ''$'' \<and> d = CHR ''$'' then CHR ''$'' # expand_replacement ds m b a
      else if c = CHR ''$'' \<and> d = CHR ''&'' then m @ expand_replacement ds m b a
      else if c = CHR ''$'' \<and> d = CHR 0x60 then b @ expand_replacement ds m b a
      else if c = CHR ''$'' \<and> d = SQUOTE then a @ expand_replacement ds m b a
      else c # expand_replacement (d # ds) m b a)"

definition replace_str :: "string \<Rightarrow> string \<Rightarrow> string \<Rightarrow> string" where
  "replace_str s p r =
     (case split_first s p of
        None \<Rightarrow> s
      | Some ba \<Rightarrow> fst ba @ expand_replacement r p (fst ba) (snd ba) @ snd ba)"

text \<open>\<open>replace(/\.mdc$/, '')\<close>: the extension is removed when the text ends with it.\<close>

definition stripMdc :: "string \<Rightarrow> string" where
  "stripMdc s = (if suffix ''.mdc'' s then take (length s - 4) s else s)"

text \<open>\<open>replace(/\\/g, '/')\<close>: every backslash becomes a slash.\<close>

definition normalizeSeparators :: "string \<Rightarrow> string" where
  "normalizeSeparators s = map (\<lambda>c. if c = BACKSLASH then CHR ''/'' else c) s"

text \<open>\<open>replace(/^\.\//, '')\<close>: a leading \<open>./\<close> is removed.\<close>

definition stripDotSlash :: "string \<Rightarrow> string" where
  "stripDotSlash s = (if prefix ''./'' s then drop 2 s else s)"

section \<open>The path module of Node.js (POSIX)\<close>

text \<open>
  \<open>path.normalize\<close>: empty and \<open>.\<close> segments disappear, \<open>..\<close> removes the segment before
  it, and a relative path keeps the \<open>..\<close> segments that lead above its start.
\<close>

fun normalizeSegments :: "bool \<Rightarrow> string list \<Rightarrow> string list \<Rightarrow> string list" where
  "normalizeSegments allowAboveRoot acc [] = rev acc"
| "normalizeSegments allowAboveRoot acc (seg # segs) =
     (if seg = [] \<or> seg = ''.'' then normalizeSegments allowAboveRoot acc segs
      else if seg = ''..'' then
        (case acc of
           [] \<Rightarrow> normalizeSegments allowAboveRoot (if allowAboveRoot then [''..''] else []) segs
         | lastSeg # acc' \<Rightarrow>
             if lastSeg = ''..''
             then normalizeSegments allowAboveRoot (if allowAboveRoot then ''..'' # acc else acc) segs
             else normalizeSegments allowAboveRoot acc' segs)
      else normalizeSegments allowAboveRoot (seg # acc) segs)"

definition path_normalize :: "string \<Rightarrow> string" where
  "path_normalize p =
     (if p = [] then ''.''
      else
        (let isAbsolute = (hd p = CHR ''/'');
             trailingSeparator = (last p = CHR ''/'');
             q = join (normalizeSegments (\<not> isAbsolute) [] (split p (CHR ''/''))) ''/''
         in if q = [] then (if isAbsolute then ''/'' else if trailingSeparator then ''./'' else ''.'')
            else (if isAbsolute then ''/'' else []) @ q @ (if trailingSeparator then ''/'' else [])))"

definition path_join :: "string list \<Rightarrow> string" where
  "path_join args =
     (let joined = join (filter (\<lambda>a. a \<noteq> []) args) ''/''
      in if joined = [] then ''.'' else path_normalize joined)"

text \<open>
  \<open>path.basename(path, ext)\<close>, as the library of the runtime computes it: one scan of
  the path from its end. Trailing separators are skipped, the scan stops at the separator
  before the last segment, and on the way the end of the segment is compared with the
  extension. \<open>basename_scan\<close> is the loop over the index \<open>i\<close>, called with \<open>i + 1\<close>; it returns
  \<open>start\<close>, \<open>end\<close> and \<open>firstNonSlashEnd\<close>. \<open>basename_plain\<close> is the loop that runs when
  the extension is empty or longer than the path.
\<close>

fun basename_scan ::
  "string \<Rightarrow> string \<Rightarrow> nat \<Rightarrow> bool \<Rightarrow> int \<Rightarrow> int \<Rightarrow> int \<Rightarrow> int \<times> int \<times> int" where
  "basename_scan path ext 0 matchedSlash extIdx firstNonSlashEnd end' =
     (0, end', firstNonSlashEnd)"
| "basename_scan path ext (Suc i) matchedSlash extIdx firstNonSlashEnd end' =
     (if path ! i = CHR ''/'' then
        (if \<not> matchedSlash then (int i + 1, end', firstNonSlashEnd)
         else basename_scan path ext i matchedSlash extIdx firstNonSlashEnd end')
      else
        (let matchedSlash' = (if firstNonSlashEnd = - 1 then False else matchedSlash);
             firstNonSlashEnd' = (if firstNonSlashEnd = - 1 then int i + 1 else firstNonSlashEnd)
         in if 0 \<le> extIdx then
              (if path ! i = ext ! nat extIdx then
                 (if extIdx - 1 = - 1
                  then basename_scan path ext i matchedSlash' (- 1) firstNonSlashEnd' (int i)
                  else basename_scan path ext i matchedSlash' (extIdx - 1) firstNonSlashEnd' end')
               else basename_scan path ext i matchedSlash' (- 1) firstNonSlashEnd' firstNonSlashEnd')
            else basename_scan path ext i matchedSlash' extIdx firstNonSlashEnd' end'))"

fun basename_plain :: "string \<Rightarrow> nat \<Rightarrow> bool \<Rightarrow> int \<Rightarrow> int \<times> int" where
  "basename_plain path 0 matchedSlash end' = (0, end')"
| "basename_plain path (Suc i) matchedSlash end' =
     (if path ! i = CHR ''/'' then
        (if \<not> matchedSlash then (int i + 1, end')
         else basename_plain path i matchedSlash end')
      else if end' = - 1 then basename_plain path i False (int i + 1)
      else basename_plain path i matchedSlash end')"

definition path_basename :: "string \<Rightarrow> string \<Rightarrow> string" where
  "path_basename path ext =
     (if 0 < length ext \<and> length ext \<le> length path then
        (if ext = path then []
         else
           (let r = basename_scan path ext (length path) True (int (length ext) - 1) (- 1) (- 1);
                start = fst r;
                end0 = fst (snd r);
                firstNonSlashEnd = snd (snd r);
                end' = (if start = end0 then firstNonSlashEnd
                        else if end0 = - 1 then int (length path) else end0)
            in slice path start end'))
      else
        (let r = basename_plain path (length path) True (- 1)
         in if snd r = - 1 then [] else slice path (fst r) (snd r)))"

section \<open>JavaScript values and metadata objects\<close>

datatype jsval =
    VUndefined
  | VNull
  | VBool bool
  | VNum rat
  | VStr string
  | VArr "string list"

type_synonym metadata = "string \<rightharpoonup> jsval"

text \<open>Reading a property: a missing key reads as \<open>undefined\<close>.\<close>

definition get :: "metadata \<Rightarrow> string \<Rightarrow> jsval" where
  "get m k = (case m k of None \<Rightarrow> VUndefined | Some v \<Rightarrow> v)"

fun truthy :: "jsval \<Rightarrow> bool" where
  "truthy VUndefined = False"
| "truthy VNull = False"
| "truthy (VBool b) = b"
| "truthy (VNum n) = (n \<noteq> 0)"
| "truthy (VStr s) = (s \<noteq> [])"
| "truthy (VArr xs) = True"

fun is_string :: "jsval \<Rightarrow> bool" where
  "is_string (VStr s) = True"
| "is_string v = False"

section \<open>MetadataParser\<close>

text \<open>\<open>/^-?\d+$/\<close> and \<open>/^-?\d*\.?\d+$/\<close>.\<close>

definition integer_re :: re where
  "integer_re =
     Cat (Bol False) (Cat (Opt (Lit ''-'')) (Cat (Plus True (Atom is_digit)) (Eol False)))"

definition float_re :: re where
  "float_re =
     Cat (Bol False) (Cat (Opt (Lit ''-'')) (Cat (Rep True (Atom is_digit))
       (Cat (Opt (Lit ''.'')) (Cat (Plus True (Atom is_digit)) (Eol False)))))"

text \<open>
  \<open>parseInt(value, 10)\<close> and \<open>parseFloat(value)\<close> on the texts that the two expressions
  accept: an optional minus sign, digits, and for the second a fraction. \<open>literal_value\<close>
  is the number that the decimal text denotes; both functions return the double nearest
  to it.
\<close>

definition literal_value :: "string \<Rightarrow> rat" where
  "literal_value v =
     (let body = (if prefix ''-'' v then drop 1 v else v);
          ip = takeWhile is_digit body;
          fp = drop 1 (dropWhile is_digit body);
          magnitude = of_int (digits_val ip) + of_int (digits_val fp) / 10 ^ length fp
      in if prefix ''-'' v then - magnitude else magnitude)"

definition parseInt_literal :: "string \<Rightarrow> rat" where
  "parseInt_literal v =
     toDouble (of_int (if prefix ''-'' v then - digits_val (drop 1 v) else digits_val v))"

definition parseFloat_literal :: "string \<Rightarrow> rat" where
  "parseFloat_literal v = toDouble (literal_value v)"

definition parseValue :: "string \<Rightarrow> jsval" where
  "parseValue v =
     (if v = [] then VStr []
      else if (startsWith v [DQUOTE] \<and> endsWith v [DQUOTE])
            \<or> (startsWith v [SQUOTE] \<and> endsWith v [SQUOTE]) then VStr (slice v 1 (- 1))
      else if toLowerCase v = ''true'' then VBool True
      else if toLowerCase v = ''false'' then VBool False
      else if toLowerCase v = ''null'' \<or> toLowerCase v = ''~'' then VNull
      else if re_test integer_re v then VNum (parseInt_literal v)
      else if re_test float_re v then VNum (parseFloat_literal v)
      else if includes_str v '','' \<and> \<not> includes_str v '' '' then VArr (map trim (split v (CHR '','')))
      else VStr v)"

text \<open>
  The assignment \<open>metadata[key] = value\<close>. The object is created with \<open>Object.prototype\<close>
  as its prototype, where the key \<open>__proto__\<close> is an accessor: the assignment to it
  creates no property; it replaces the prototype of the object when the value is an array
  or \<open>null\<close> and does nothing otherwise. Once the prototype is \<open>null\<close> the accessor is out
  of reach, and the assignment creates a property as it does for every other key. The
  state is the map of the properties of the object and a flag that says whether the
  accessor is in reach; the prototype itself is not represented.
\<close>

definition assign :: "string \<Rightarrow> jsval \<Rightarrow> metadata \<times> bool \<Rightarrow> metadata \<times> bool" where
  "assign key v st =
     (if key = ''__proto__'' \<and> snd st then (fst st, v \<noteq> VNull)
      else ((fst st)(key \<mapsto> v), snd st))"

text \<open>
  The loop of \<open>parseMetadataLines\<close>, as a recursion over the lines that remain. After a
  key with an empty value the source looks ahead to the next non-empty line and then
  stores the empty string on either branch.
\<close>

fun parseMetadataLines_from :: "string list \<Rightarrow> metadata \<times> bool \<Rightarrow> metadata \<times> bool" where
  "parseMetadataLines_from [] st = st"
| "parseMetadataLines_from (l # ls) st =
     (let line = trim l
      in if line = [] then parseMetadataLines_from ls st
         else
           (case indexOf line '':'' of
              None \<Rightarrow> parseMetadataLines_from ls st
            | Some colonIndex \<Rightarrow>
                if colonIndex > 0 then
                  (let key = trim (take colonIndex line);
                       valueAfterColon = trim (drop (colonIndex + 1) line)
                   in if valueAfterColon = [] then
                        (let following = dropWhile (\<lambda>x. trim x = []) ls;
                             nextNonEmptyLine = (case following of [] \<Rightarrow> [] | x # xs \<Rightarrow> trim x);
                             indented = (case following of [] \<Rightarrow> False | x # xs \<Rightarrow> startsWith x '' '')
                         in if includes_str nextNonEmptyLine '':'' \<and> \<not> indented
                            then parseMetadataLines_from ls (assign key (VStr []) st)
                            else parseMetadataLines_from ls (assign key (VStr []) st))
                      else parseMetadataLines_from ls (assign key (parseValue valueAfterColon) st))
                else parseMetadataLines_from ls st))"

definition parseMetadataLines :: "string list \<Rightarrow> metadata" where
  "parseMetadataLines metadataLines = fst (parseMetadataLines_from metadataLines (Map.empty, True))"

text \<open>The search for the closing delimiter, from line \<open>i\<close> on.\<close>

fun metadataEnd :: "string list \<Rightarrow> nat \<Rightarrow> nat option" where
  "metadataEnd [] i = None"
| "metadataEnd (l # ls) i = (if trim l = ''---'' then Some i else metadataEnd ls (Suc i))"

definition parseMetadata :: "string \<Rightarrow> metadata \<times> string" where
  "parseMetadata content =
     (let trimmedContent = trim content
      in if \<not> startsWith trimmedContent ''---'' then (Map.empty, trimmedContent)
         else
           (let lines = split trimmedContent NEWLINE
            in case metadataEnd (drop 1 lines) 1 of
                 None \<Rightarrow> (Map.empty, trimmedContent)
               | Some metadataEndIndex \<Rightarrow>
                   (let metadataLines = slice lines 1 (int metadataEndIndex);
                        remainingContent =
                          trim (join (drop (metadataEndIndex + 1) lines) [NEWLINE])
                    in (parseMetadataLines metadataLines, remainingContent))))"

text \<open>
  The normalisation step of \<open>parseWithNormalization\<close>: the \<open>globs\<close> field, the
  \<open>alwaysApply\<close> field, then the removal of the keys bound to \<open>null\<close> or \<open>undefined\<close>.
\<close>

definition normalizeGlobs :: "metadata \<Rightarrow> metadata" where
  "normalizeGlobs m =
     (if get m ''globs'' \<noteq> VUndefined then
        (case get m ''globs'' of
           VStr g \<Rightarrow> if trim g = [] then m(''globs'' \<mapsto> VArr []) else m(''globs'' \<mapsto> VArr [g])
         | _ \<Rightarrow> m)
      else m(''globs'' \<mapsto> VArr []))"

definition normalizeAlwaysApply :: "metadata \<Rightarrow> metadata" where
  "normalizeAlwaysApply m =
     (if get m ''alwaysApply'' \<noteq> VUndefined then
        (case get m ''alwaysApply'' of
           VStr a \<Rightarrow> m(''alwaysApply'' \<mapsto> VBool (toLowerCase a = ''true''))
         | _ \<Rightarrow> m)
      else m(''alwaysApply'' \<mapsto> VBool False))"

definition removeNullish :: "metadata \<Rightarrow> metadata" where
  "removeNullish m =
     (\<lambda>k. case m k of
            None \<Rightarrow> None
          | Some v \<Rightarrow> if v = VUndefined \<or> v = VNull then None else Some v)"

definition normalizeMetadata :: "metadata \<Rightarrow> metadata" where
  "normalizeMetadata m = removeNullish (normalizeAlwaysApply (normalizeGlobs m))"

definition parseWithNormalization :: "string \<Rightarrow> metadata \<times> string" where
  "parseWithNormalization content =
     (let result = parseMetadata content
      in (normalizeMetadata (fst result), snd result))"

section \<open>Plugin data\<close>

record CrossReference =
  original :: string
  resolved :: string
  isValid :: bool

record TOCItem =
  "value" :: string
  anchor :: string
  level :: int

record InternalPluginConfig =
  sourceDir :: string
  targetPath :: string
  includeMetadata :: bool
  mainRule :: string
  component :: string
  crossReferenceBase :: string

record RuleContent =
  id' :: string
  filePath :: string
  title :: string
  content :: string
  metadata :: metadata
  permalink :: string
  toc :: "TOCItem list"

section \<open>LinkResolver\<close>

text \<open>
  \<open>discoveredFiles\<close> is a JavaScript \<open>Map\<close>: its keys are kept in the order of their first
  insertion, and setting an existing key keeps the key's place.
\<close>

type_synonym discoveredFiles = "(string \<times> RuleContent) list"

fun map_set :: "string \<Rightarrow> RuleContent \<Rightarrow> discoveredFiles \<Rightarrow> discoveredFiles" where
  "map_set k v [] = [(k, v)]"
| "map_set k v (e # es) = (if fst e = k then (k, v) # es else e # map_set k v es)"

definition has :: "discoveredFiles \<Rightarrow> string \<Rightarrow> bool" where
  "has files k = (k \<in> set (map fst files))"

definition keys :: "discoveredFiles \<Rightarrow> string list" where
  "keys files = map fst files"

definition setDiscoveredFiles :: "RuleContent list \<Rightarrow> discoveredFiles" where
  "setDiscoveredFiles ruleContents =
     foldl (\<lambda>files c. map_set (normalizeSeparators (filePath c)) c (map_set (filePath c) c files))
       [] ruleContents"

text \<open>
  \<open>MDC_LINK_PATTERN\<close>. Group 1 is a whole anchor element whose \<open>href\<close> is a reference,
  group 2 that \<open>href\<close>, group 3 a bare reference:
  \<^verbatim>\<open>(<a\s+[^>]*href\s*=\s*["'](T)["'][^>]*>.*?<\/a>)|(B)\<close> where \<open>T\<close> and \<open>B\<close> are
  \<^verbatim>\<open>\.\/X+\.mdc|\.cursor\/rules\/X+\.mdc|mdc:X+\.mdc\<close> with \<open>X\<close> the class
  \<^verbatim>\<open>[^\s"']\<close> in \<open>T\<close> and \<^verbatim>\<open>[^\s\)\]]\<close> in \<open>B\<close>.
\<close>

definition href_char :: "char \<Rightarrow> bool" where
  "href_char c = (\<not> is_space c \<and> c \<noteq> DQUOTE \<and> c \<noteq> SQUOTE)"

definition bare_char :: "char \<Rightarrow> bool" where
  "bare_char c = (\<not> is_space c \<and> c \<noteq> CHR '')'' \<and> c \<noteq> CHR '']'')"

definition any_char :: "char \<Rightarrow> bool" where
  "any_char c = (\<not> is_line_terminator c)"

definition quote_char :: "char \<Rightarrow> bool" where
  "quote_char c = (c = DQUOTE \<or> c = SQUOTE)"

definition not_gt :: "char \<Rightarrow> bool" where
  "not_gt c = (c \<noteq> CHR ''>'')"

definition not_lt :: "char \<Rightarrow> bool" where
  "not_lt c = (c \<noteq> CHR ''<'')"

definition mdc_target :: "(char \<Rightarrow> bool) \<Rightarrow> re" where
  "mdc_target p =
     Or (Cat (Lit ''./'') (Cat (Plus True (Atom p)) (Lit ''.mdc'')))
    (Or (Cat (Lit ''.cursor/rules/'') (Cat (Plus True (Atom p)) (Lit ''.mdc'')))
        (Cat (Lit ''mdc:'') (Cat (Plus True (Atom p)) (Lit ''.mdc''))))"

definition MDC_LINK_PATTERN :: re where
  "MDC_LINK_PATTERN =
     Or (Group 1
          (Cat (Lit ''<a'') (Cat (Plus True (Atom is_space))
          (Cat (Rep True (Atom not_gt)) (Cat (Lit ''href'')
          (Cat (Rep True (Atom is_space)) (Cat (Lit ''='') (Cat (Rep True (Atom is_space))
          (Cat (Atom quote_char) (Cat (Group 2 (mdc_target href_char))
          (Cat (Atom quote_char) (Cat (Rep True (Atom not_gt)) (Cat (Lit ''>'')
          (Cat (Rep False (Atom any_char)) (Lit ''</a>'')))))))))))))))
        (Group 3 (mdc_target bare_char))"

text \<open>\<^verbatim>\<open>/>([^<]*)</\<close>, which reads the link text out of an anchor element.\<close>

definition anchor_text_re :: re where
  "anchor_text_re = Cat (Lit ''>'') (Cat (Group 1 (Rep True (Atom not_lt))) (Lit ''<''))"

definition validateTargetExists :: "discoveredFiles \<Rightarrow> string \<Rightarrow> bool" where
  "validateTargetExists files relativePath =
     (if has files relativePath then True
      else
        (let cleanPath = stripDotSlash relativePath
         in if has files cleanPath then True
            else
              (let normalizedPath = normalizeSeparators cleanPath
               in if has files normalizedPath then True else False)))"

text \<open>
  The first half of \<open>resolveSingleLink\<close>: the path of the target relative to the source
  directory. The position after the first \<open>.cursor/rules/\<close> is found with \<open>split_first\<close>.
\<close>

definition targetFilePath :: "InternalPluginConfig \<Rightarrow> string \<Rightarrow> string" where
  "targetFilePath config originalLink =
     (if startsWith originalLink ''mdc:'' then
        (let mdcPath = drop 4 originalLink
         in if startsWith mdcPath (sourceDir config @ ''/'')
            then drop (length (sourceDir config) + 1) mdcPath
            else if startsWith mdcPath (''./'' @ sourceDir config @ ''/'')
            then drop (length (''./'' @ sourceDir config @ ''/'')) mdcPath
            else mdcPath)
      else if includes_str originalLink ''.cursor/rules/'' then
        (case split_first originalLink ''.cursor/rules/'' of
           None \<Rightarrow> originalLink
         | Some ba \<Rightarrow> snd ba)
      else if startsWith originalLink ''./'' then drop 2 originalLink
      else originalLink)"

definition resolveSingleLink ::
  "InternalPluginConfig \<Rightarrow> discoveredFiles \<Rightarrow> string \<Rightarrow> CrossReference" where
  "resolveSingleLink config files originalLink =
     (let target = targetFilePath config originalLink;
          pathWithoutExt = stripMdc target;
          normalizedPath = normalizeSeparators pathWithoutExt;
          resolvedUrl = path_join [crossReferenceBase config, normalizedPath];
          isValid' = validateTargetExists files target
      in \<lparr> original = originalLink, resolved = resolvedUrl, isValid = isValid' \<rparr>)"

text \<open>
  One turn of the loop of \<open>resolveLinks\<close>: the state is the text rewritten so far and the
  cross-references collected so far.
\<close>

definition resolveMatch ::
  "InternalPluginConfig \<Rightarrow> discoveredFiles \<Rightarrow> string \<times> CrossReference list \<Rightarrow> rmatch
     \<Rightarrow> string \<times> CrossReference list" where
  "resolveMatch config files st m =
     (case snd m 1 of
        Some anchorTag \<Rightarrow>
          (case snd m 2 of
             None \<Rightarrow> st
           | Some originalLink \<Rightarrow>
               (let linkText =
                      (case re_match anchor_text_re anchorTag of
                         None \<Rightarrow> ''link''
                       | Some textMatch \<Rightarrow> (case snd textMatch 1 of None \<Rightarrow> [] | Some t \<Rightarrow> t));
                    resolvedInfo = resolveSingleLink config files originalLink;
                    newAnchorTag =
                      ''<a href='' @ [DQUOTE] @ resolved resolvedInfo @ [DQUOTE] @ ''>''
                        @ linkText @ ''</a>''
                in (replace_str (fst st) anchorTag newAnchorTag, snd st @ [resolvedInfo])))
      | None \<Rightarrow>
          (case snd m 3 of
             None \<Rightarrow> st
           | Some originalLink \<Rightarrow>
               (let resolvedInfo = resolveSingleLink config files originalLink
                in (replace_str (fst st) originalLink (resolved resolvedInfo),
                    snd st @ [resolvedInfo]))))"

definition resolveLinks ::
  "InternalPluginConfig \<Rightarrow> discoveredFiles \<Rightarrow> string \<Rightarrow> string \<times> CrossReference list" where
  "resolveLinks config files body =
     foldl (resolveMatch config files) (body, []) (matchAll MDC_LINK_PATTERN body)"

definition findSimilarFiles :: "string \<Rightarrow> string list \<Rightarrow> string list" where
  "findSimilarFiles originalLink availableFiles =
     (let linkBasename = toLowerCase (path_basename originalLink ''.mdc'')
      in slice
           (filter
              (\<lambda>file.
                 (let fileBasename = toLowerCase (path_basename file ''.mdc'')
                  in fileBasename = linkBasename
                     \<or> includes_str fileBasename linkBasename
                     \<or> includes_str linkBasename fileBasename))
              availableFiles)
           0 3)"

definition availableFiles :: "discoveredFiles \<Rightarrow> string list" where
  "availableFiles files = sort (map (\<lambda>p. ''./'' @ p) (filter (\<lambda>p. endsWith p ''.mdc'') (keys files)))"

definition warningMessage :: "discoveredFiles \<Rightarrow> string \<Rightarrow> CrossReference \<Rightarrow> string" where
  "warningMessage files sourceFilePath ref =
     (let available = availableFiles files;
          suggestions = findSimilarFiles (original ref) available
      in ''Broken cross-reference in '' @ sourceFilePath @ '': '' @ original ref
         @ (if length suggestions > 0
            then [NEWLINE] @ ''  Suggestions: '' @ join suggestions '', '' else [])
         @ [NEWLINE] @ ''  Available files: '' @ join (slice available 0 5) '', ''
         @ (if length available > 5
            then '' (and '' @ show_nat (length available - 5) @ '' more)'' else []))"

definition generateWarnings :: "discoveredFiles \<Rightarrow> CrossReference list \<Rightarrow> string \<Rightarrow> string list" where
  "generateWarnings files crossReferences sourceFilePath =
     foldl (\<lambda>warnings ref.
              if \<not> isValid ref then warnings @ [warningMessage files sourceFilePath ref]
              else warnings)
       [] crossReferences"



section \<open>SidebarGenerator\<close>

text \<open>
  A sidebar item is a link or a category; each may carry the optional \<open>position\<close> that
  the type \<open>SidebarItem\<close> adds.
\<close>

datatype SidebarItem =
    Link string string "rat option"
  | Category string "SidebarItem list" bool bool "rat option"

fun label :: "SidebarItem \<Rightarrow> string" where
  "label (Link l h p) = l"
| "label (Category l its c1 c2 p) = l"

fun position :: "SidebarItem \<Rightarrow> rat option" where
  "position (Link l h p) = p"
| "position (Category l its c1 c2 p) = p"

text \<open>
  \<open>parseInt(s, 10)\<close>: leading white space, an optional sign, then the longest run of
  digits; \<open>None\<close> stands for \<open>NaN\<close>. The result is the integer that the digits denote;
  where it becomes a number it is rounded to the nearest double.
\<close>

definition parseInt :: "string \<Rightarrow> int option" where
  "parseInt s =
     (let t = dropWhile is_space s;
          u = (if prefix ''-'' t \<or> prefix ''+'' t then drop 1 t else t);
          ds = takeWhile is_digit u
      in if ds = [] then None
         else Some (if prefix ''-'' t then - digits_val ds else digits_val ds))"

definition extractSidebarPosition :: "metadata \<Rightarrow> rat option" where
  "extractSidebarPosition m =
     (let position' =
            (if truthy (get m ''sidebar_position'') then get m ''sidebar_position''
             else get m ''sidebarPosition'')
      in case position' of
           VNum n \<Rightarrow> Some n
         | VStr t \<Rightarrow>
             (case parseInt t of None \<Rightarrow> None | Some parsed \<Rightarrow> Some (toDouble (of_int parsed)))
         | _ \<Rightarrow> None)"

definition createSidebarItemFromFile :: "RuleContent \<Rightarrow> SidebarItem" where
  "createSidebarItemFromFile rule =
     Link (title rule) (permalink rule) (extractSidebarPosition (metadata rule))"

text \<open>
  The comparison function handed to \<open>Array.prototype.sort\<close>. \<open>localeCompare\<close> belongs to
  the JavaScript runtime and depends on its locale: it is a parameter.
\<close>

definition compareItems :: "(string \<Rightarrow> string \<Rightarrow> int) \<Rightarrow> SidebarItem \<Rightarrow> SidebarItem \<Rightarrow> rat" where
  "compareItems localeCompare a b =
     (if position a \<noteq> None \<and> position b \<noteq> None
      then (case position a of None \<Rightarrow> 0 | Some pa \<Rightarrow>
             (case position b of None \<Rightarrow> 0 | Some pb \<Rightarrow> pa - pb))
      else if position a \<noteq> None then - 1
      else if position b \<noteq> None then 1
      else of_int (localeCompare (label a) (label b)))"

text \<open>
  \<open>Array.prototype.sort\<close> is stable, and for a consistent comparison function every
  stable sort returns the same array; insertion sort stands for the runtime's algorithm.
  An element goes before the first element that it does not compare greater than.
\<close>

fun insort_cmp :: "('a \<Rightarrow> 'a \<Rightarrow> rat) \<Rightarrow> 'a \<Rightarrow> 'a list \<Rightarrow> 'a list" where
  "insort_cmp cmp x [] = [x]"
| "insort_cmp cmp x (y # ys) = (if cmp x y \<le> 0 then x # y # ys else y # insort_cmp cmp x ys)"

definition sort_cmp :: "('a \<Rightarrow> 'a \<Rightarrow> rat) \<Rightarrow> 'a list \<Rightarrow> 'a list" where
  "sort_cmp cmp xs = foldr (insort_cmp cmp) xs []"

definition sortSidebarItems :: "(string \<Rightarrow> string \<Rightarrow> int) \<Rightarrow> SidebarItem list \<Rightarrow> SidebarItem list" where
  "sortSidebarItems localeCompare its = sort_cmp (compareItems localeCompare) its"

section \<open>ContentLoader\<close>

text \<open>
  The collaborators outside the plugin: the file system, the file enumerator, the
  markdown renderer, and the two functions of the path module whose result depends on the
  working directory. A call that may throw returns \<open>Inl\<close> with the error message.
\<close>

record Env =
  existsSync :: "string \<Rightarrow> bool"
  glob :: "string \<Rightarrow> string + string list"
  readFileSync :: "string \<Rightarrow> string + string"
  statSync_mtime :: "string \<Rightarrow> string + string"
  unified_process :: "string \<Rightarrow> string + string"
  path_resolve :: "string \<Rightarrow> string \<Rightarrow> string"
  path_relative :: "string \<Rightarrow> string \<Rightarrow> string"

text \<open>\<^verbatim>\<open>/^#\s+(.+)$/m\<close>: the first level-1 heading of the raw body.\<close>

definition heading_re :: re where
  "heading_re =
     Cat (Bol True) (Cat (Lit ''#'') (Cat (Plus True (Atom is_space))
       (Cat (Group 1 (Plus True (Atom any_char))) (Eol True))))"

text \<open>
  \<^verbatim>\<open>replace(/\b\w/g, l => l.toUpperCase())\<close>: a code unit of the class \<open>\w\<close> that does
  not follow one is put in upper case. The flag says whether the previous code unit is of
  the class.
\<close>

fun capitalizeWords :: "bool \<Rightarrow> string \<Rightarrow> string" where
  "capitalizeWords prev [] = []"
| "capitalizeWords prev (c # cs) =
     (if is_word c \<and> \<not> prev then upper_word_char c else c) # capitalizeWords (is_word c) cs"

text \<open>The text of the first match of the heading pattern, trimmed.\<close>

definition firstHeading :: "string \<Rightarrow> string option" where
  "firstHeading body =
     (case re_match heading_re body of
        None \<Rightarrow> None
      | Some headingMatch \<Rightarrow> Some (trim (case snd headingMatch 1 of None \<Rightarrow> [] | Some h \<Rightarrow> h)))"

definition extractTitle :: "metadata \<Rightarrow> string \<Rightarrow> string \<Rightarrow> string" where
  "extractTitle m body relativePath =
     (if truthy (get m ''title'') \<and> is_string (get m ''title'')
      then (case get m ''title'' of VStr t \<Rightarrow> t | _ \<Rightarrow> [])
      else if truthy (get m ''description'') \<and> is_string (get m ''description'')
      then (case get m ''description'' of VStr d \<Rightarrow> d | _ \<Rightarrow> [])
      else
        (case firstHeading body of
           Some heading \<Rightarrow> heading
         | None \<Rightarrow>
             (let filename = path_basename relativePath ''.mdc''
              in capitalizeWords False
                   (map (\<lambda>c. if c = CHR ''-'' \<or> c = CHR ''_'' then CHR '' '' else c) filename))))"

definition generatePermalink :: "InternalPluginConfig \<Rightarrow> string \<Rightarrow> string" where
  "generatePermalink config relativePath =
     (let pathWithoutExt = stripMdc relativePath;
          normalizedPath = normalizeSeparators pathWithoutExt
      in path_join [crossReferenceBase config, normalizedPath])"

text \<open>The renderer's failure is caught: the raw body is wrapped in a \<open>pre\<close> element.\<close>

definition processMarkdown :: "Env \<Rightarrow> string \<Rightarrow> string" where
  "processMarkdown env body =
     (case unified_process env body of
        Inr html \<Rightarrow> html
      | Inl err \<Rightarrow> ''<pre>'' @ body @ ''</pre>'')"

text \<open>
  \<^verbatim>\<open>/<(h[1-6])(?:\s+id="([^"]*)")?[^>]*>(.*?)<\/h[1-6]>/gi\<close>, and
  \<^verbatim>\<open>replace(/<[^>]*>/g, '')\<close>, which removes the tags nested in a heading.
\<close>

definition LitCI :: "string \<Rightarrow> re" where
  "LitCI s = foldr (\<lambda>c r. Cat (Atom (\<lambda>x. lower_char x = lower_char c)) r) s Empty"

definition headingRegex :: re where
  "headingRegex =
     Cat (Lit ''<'') (Cat (Group 1 (Cat (LitCI ''h'') (Atom (\<lambda>c. c \<in> set ''123456''))))
    (Cat (Opt (Cat (Plus True (Atom is_space)) (Cat (LitCI ''id='') (Cat (Lit [DQUOTE])
           (Cat (Group 2 (Rep True (Atom (\<lambda>c. c \<noteq> DQUOTE)))) (Lit [DQUOTE]))))))
    (Cat (Rep True (Atom not_gt)) (Cat (Lit ''>'') (Cat (Group 3 (Rep False (Atom any_char)))
    (Cat (Lit ''</'') (Cat (LitCI ''h'') (Cat (Atom (\<lambda>c. c \<in> set ''123456'')) (Lit ''>'')))))))))"

function strip_tags :: "string \<Rightarrow> string" where
  "strip_tags [] = []"
| "strip_tags (c # cs) =
     (if c = CHR ''<'' \<and> CHR ''>'' \<in> set cs then strip_tags (drop 1 (dropWhile not_gt cs))
      else c # strip_tags cs)"
  by pat_completeness auto
termination
  by (relation "measure length")
    (auto simp: less_Suc_eq_le intro: order_trans [OF diff_le_self length_dropWhile_le])

definition tocItem :: "rmatch \<Rightarrow> TOCItem list" where
  "tocItem m =
     (let tagName = toLowerCase (case snd m 1 of None \<Rightarrow> [] | Some t \<Rightarrow> t);
          anchorId = (case snd m 2 of None \<Rightarrow> [] | Some i \<Rightarrow> i);
          text = trim (strip_tags (case snd m 3 of None \<Rightarrow> [] | Some h \<Rightarrow> h));
          lvl = (case parseInt (slice tagName 1 2) of None \<Rightarrow> 0 | Some l \<Rightarrow> l)
      in if anchorId \<noteq> [] \<and> text \<noteq> []
         then [\<lparr> value = text, anchor = anchorId, level = lvl \<rparr>] else [])"

definition extractTOC :: "string \<Rightarrow> TOCItem list" where
  "extractTOC htmlContent = concat (map tocItem (matchAll headingRegex htmlContent))"

text \<open>
  The body of the \<open>try\<close> block of \<open>processFile\<close>: \<open>Inl\<close> is an exception thrown by
  \<open>readFileSync\<close> or \<open>statSync\<close>, the two calls of the block that can throw.
\<close>

definition processFile_try :: "Env \<Rightarrow> InternalPluginConfig \<Rightarrow> string \<Rightarrow> string \<Rightarrow> string + RuleContent" where
  "processFile_try env config file srcDir =
     (case readFileSync env file of
        Inl err \<Rightarrow> Inl err
      | Inr fileContent \<Rightarrow>
          (let parsed = parseWithNormalization fileContent;
               relativePath = path_relative env srcDir file;
               title' = extractTitle (fst parsed) (snd parsed) relativePath;
               permalink' = generatePermalink config relativePath;
               processedContent = processMarkdown env (snd parsed);
               toc' = extractTOC processedContent
           in case statSync_mtime env file of
                Inl err \<Rightarrow> Inl err
              | Inr lastModified \<Rightarrow>
                  Inr \<lparr> id' = normalizeSeparators (stripMdc relativePath),
                        filePath = relativePath,
                        title = title',
                        content = processedContent,
                        metadata = (fst parsed)
                          (''sourceFile'' \<mapsto> VStr (path_join [sourceDir config, relativePath]),
                           ''lastModified'' \<mapsto> VStr lastModified),
                        permalink = permalink',
                        toc = toc' \<rparr>))"

text \<open>
  \<open>processFile\<close> catches whatever its \<open>try\<close> block throws, logs it and returns \<open>null\<close>. The
  result is \<open>Inr None\<close> for \<open>null\<close>; \<open>Inl\<close> would be a rejected promise.
\<close>

definition processFile ::
  "Env \<Rightarrow> InternalPluginConfig \<Rightarrow> string \<Rightarrow> string \<Rightarrow> string + RuleContent option" where
  "processFile env config file srcDir =
     (case processFile_try env config file srcDir of
        Inl err \<Rightarrow> Inr None
      | Inr rule \<Rightarrow> Inr (Some rule))"

definition discoverMdcFiles :: "Env \<Rightarrow> string \<Rightarrow> string list" where
  "discoverMdcFiles env srcDir =
     (case glob env (normalizeSeparators (path_join [srcDir, ''**/*.mdc''])) of
        Inl err \<Rightarrow> []
      | Inr files \<Rightarrow> files)"

text \<open>
  The first pass of \<open>loadContent\<close>. The loop is written over any function \<open>pf\<close> in the
  place of \<open>processFile\<close>, so that its \<open>catch\<close> clause has a meaning. The state is the list
  \<open>processedContent\<close> and the list \<open>errors\<close>.
\<close>

fun firstPass ::
  "(string \<Rightarrow> string + RuleContent option) \<Rightarrow> string list
     \<Rightarrow> RuleContent list \<times> string list \<Rightarrow> RuleContent list \<times> string list" where
  "firstPass pf [] st = st"
| "firstPass pf (file # rest) st =
     (case pf file of
        Inr (Some rule) \<Rightarrow> firstPass pf rest (fst st @ [rule], snd st)
      | Inr None \<Rightarrow> firstPass pf rest st
      | Inl errorMessage \<Rightarrow>
          firstPass pf rest
            (fst st, snd st @ [''Error processing file '' @ file @ '': '' @ errorMessage]))"

text \<open>
  The second pass: every surviving document has its body rewritten against the index of
  all of them. The state is the rewritten documents, the cross-references and the
  warnings.
\<close>

definition secondPassStep ::
  "InternalPluginConfig \<Rightarrow> discoveredFiles
     \<Rightarrow> RuleContent list \<times> CrossReference list \<times> string list \<Rightarrow> RuleContent
     \<Rightarrow> RuleContent list \<times> CrossReference list \<times> string list" where
  "secondPassStep config files st rule =
     (let linkResult = resolveLinks config files (content rule);
          linkWarnings = generateWarnings files (snd linkResult) (filePath rule)
      in (fst st @ [rule\<lparr>content := fst linkResult\<rparr>],
          fst (snd st) @ snd linkResult,
          snd (snd st) @ linkWarnings))"

record ProcessingResult =
  content :: "RuleContent list"
  crossReferences :: "CrossReference list"
  warnings :: "string list"
  errors :: "string list"

definition loadContent_with ::
  "(string \<Rightarrow> string \<Rightarrow> string + RuleContent option) \<Rightarrow> Env \<Rightarrow> InternalPluginConfig \<Rightarrow> string
     \<Rightarrow> ProcessingResult" where
  "loadContent_with pf env config projectRoot =
     (let srcDir = path_resolve env projectRoot (sourceDir config)
      in if \<not> existsSync env srcDir
         then \<lparr> content = [], crossReferences = [],
                warnings = [''Source directory not found: '' @ srcDir], errors = [] \<rparr>
         else
           (let mdcFiles = discoverMdcFiles env srcDir;
                first = firstPass (\<lambda>file. pf file srcDir) mdcFiles ([], []);
                files = setDiscoveredFiles (fst first);
                second = foldl (secondPassStep config files) ([], [], []) (fst first)
            in \<lparr> content = fst second, crossReferences = fst (snd second),
                 warnings = snd (snd second), errors = snd first \<rparr>))"

definition loadContent :: "Env \<Rightarrow> InternalPluginConfig \<Rightarrow> string \<Rightarrow> ProcessingResult" where
  "loadContent env config projectRoot =
     loadContent_with (processFile env config) env config projectRoot"

text \<open>
  One admissible \<open>localeCompare\<close>: the comparison of the code units, as in a locale whose
  collation is the code unit order.
\<close>

definition codeUnitCompare :: "string \<Rightarrow> string \<Rightarrow> int" where
  "codeUnitCompare a b = (if a < b then - 1 else if a = b then 0 else 1)"

section \<open>LinkResolver: resolution statistics\<close>

record ResolutionStats =
  total :: nat
  valid :: nat
  broken :: nat
  successRate :: rat

definition getResolutionStats :: "CrossReference list \<Rightarrow> ResolutionStats" where
  "getResolutionStats allCrossReferences =
     (let total' = length allCrossReferences;
          valid' = length (filter isValid allCrossReferences);
          broken' = total' - valid';
          successRate' =
            (if total' > 0 then double_mul (double_div (of_nat valid') (of_nat total')) 100 else 100)
      in \<lparr> total = total', valid = valid', broken = broken',
           successRate = double_div (of_int (Math_round (double_mul successRate' 100))) 100 \<rparr>)"


section \<open>Shapes of numeric literals, in the words of the specification\<close>

text \<open>
  The specification describes the two numeric coercions by the shape of the text: an
  optional leading minus sign followed only by digits; an optional leading minus sign,
  digits, an optional point, digits. These predicates say so without regular
  expressions; they are compared with the expressions of the source below.
\<close>

definition nonempty_digits :: "string \<Rightarrow> bool" where
  "nonempty_digits b = (b \<noteq> [] \<and> list_all is_digit b)"

definition int_shape :: "string \<Rightarrow> bool" where
  "int_shape v = nonempty_digits (if prefix ''-'' v then drop 1 v else v)"

definition float_body :: "string \<Rightarrow> bool" where
  "float_body b =
     (nonempty_digits b
      \<or> (prefix ''.'' (dropWhile is_digit b) \<and> nonempty_digits (drop 1 (dropWhile is_digit b))))"

definition float_shape :: "string \<Rightarrow> bool" where
  "float_shape v = float_body (if prefix ''-'' v then drop 1 v else v)"

text \<open>
  The coercion of a value in the order of the specification, with the space character in
  the place of white space and the nearest double as the number.
\<close>

definition coercion_in_order :: "string \<Rightarrow> jsval" where
  "coercion_in_order v =
     (if v = [] then VStr []
      else if (hd v = DQUOTE \<and> last v = DQUOTE) \<or> (hd v = SQUOTE \<and> last v = SQUOTE)
      then VStr (butlast (tl v))
      else if toLowerCase v = ''true'' then VBool True
      else if toLowerCase v = ''false'' then VBool False
      else if toLowerCase v = ''null'' \<or> toLowerCase v = ''~'' then VNull
      else if int_shape v then VNum (toDouble (literal_value v))
      else if float_shape v then VNum (toDouble (literal_value v))
      else if CHR '','' \<in> set v \<and> CHR '' '' \<notin> set v then VArr (map trim (split v (CHR '','')))
      else VStr v)"

text \<open>What may follow the integer digits of a number: a fraction, or nothing more.\<close>

definition frac_ok :: "string \<Rightarrow> bool" where
  "frac_ok r = ((prefix ''.'' r \<and> nonempty_digits (drop 1 r)) \<or> nonempty_digits r)"

text \<open>The ways in which a greedy repetition of one class can stop, longest first.\<close>

fun star_states :: "(char \<Rightarrow> bool) \<Rightarrow> string \<Rightarrow> string \<Rightarrow> captures \<Rightarrow> mstate list" where
  "star_states p bef [] caps = [(bef, [], caps)]"
| "star_states p bef (x # xs) caps =
     (if p x then star_states p (x # bef) xs caps @ [(bef, x # xs, caps)] else [(bef, x # xs, caps)])"

section \<open>Similar base names, in the words of the specification\<close>

text \<open>
  A known path qualifies as a suggestion for a broken reference when the two base names,
  without the extension and in lower case, are equal or one contains the other.
\<close>

definition basename_key :: "string \<Rightarrow> string" where
  "basename_key p = toLowerCase (path_basename p ''.mdc'')"

definition similar_basename :: "string \<Rightarrow> string \<Rightarrow> bool" where
  "similar_basename link file =
     (basename_key file = basename_key link
      \<or> sublist (basename_key link) (basename_key file)
      \<or> sublist (basename_key file) (basename_key link))"

section \<open>Known paths, in the words of the specification\<close>

text \<open>
  A relative path is known when it is a key of the index as it stands, without a leading
  \<open>./\<close>, or without it and with its separators normalised.
\<close>

definition known :: "discoveredFiles \<Rightarrow> string \<Rightarrow> bool" where
  "known files p =
     (p \<in> set (keys files) \<or> stripDotSlash p \<in> set (keys files)
      \<or> normalizeSeparators (stripDotSlash p) \<in> set (keys files))"

section \<open>Sample documents\<close>

text \<open>The configuration and the documents of the repository's tests.\<close>

definition sampleConfig :: InternalPluginConfig where
  "sampleConfig = \<lparr> sourceDir = ''.cursor/rules'', targetPath = ''rules'', includeMetadata = True,
     mainRule = ''main'', component = ''@site/src/components/RulePage/index.tsx'',
     crossReferenceBase = ''/rules'' \<rparr>"

definition sampleRule :: "string \<Rightarrow> RuleContent" where
  "sampleRule p = \<lparr> id' = stripMdc p, filePath = p, title = p, content = [],
     metadata = Map.empty, permalink = ''/rules/'' @ stripMdc p, toc = [] \<rparr>"

definition eightRules :: "RuleContent list" where
  "eightRules = map sampleRule
     [''rule0.mdc'', ''rule1.mdc'', ''rule2.mdc'', ''rule3.mdc'',
      ''rule4.mdc'', ''rule5.mdc'', ''rule6.mdc'', ''rule7.mdc'']"

text \<open>A configuration whose source directory is not \<open>.cursor/rules\<close>.\<close>

definition docsConfig :: InternalPluginConfig where
  "docsConfig = sampleConfig \<lparr> sourceDir := ''docs/rules'' \<rparr>"

definition similarRules :: "RuleContent list" where
  "similarRules = map sampleRule [''implement.mdc'', ''implementation-guide.mdc'']"

definition anchorBodyExample :: string where
  "anchorBodyExample = ''See <a href='' @ [DQUOTE] @ ''./main.mdc'' @ [DQUOTE] @ ''>main</a>''"

definition anchorTitleExample :: string where
  "anchorTitleExample =
     ''See <a href='' @ [DQUOTE] @ ''./main.mdc'' @ [DQUOTE]
       @ '' title='' @ [DQUOTE] @ ''Main'' @ [DQUOTE] @ ''>main</a>''"


definition numericTitleFile :: string where
  "numericTitleFile =
     ''---'' @ [NEWLINE] @ ''title: 2024'' @ [NEWLINE] @ ''---'' @ [NEWLINE] @ ''# Heading''"

definition mixedEnv :: Env where
  "mixedEnv = \<lparr>
     existsSync = (\<lambda>p. True),
     glob = (\<lambda>pattern. Inr [''/site/.cursor/rules/good.mdc'', ''/site/.cursor/rules/bad.mdc'']),
     readFileSync = (\<lambda>p. if p = ''/site/.cursor/rules/good.mdc'' then Inr ''# Good file''
                          else Inl ''Bad file error''),
     statSync_mtime = (\<lambda>p. Inr ''2023-01-01T00:00:00.000Z''),
     unified_process = (\<lambda>body. Inr (''<p>'' @ body @ ''</p>'')),
     path_resolve = (\<lambda>a b. a @ ''/'' @ b),
     path_relative = (\<lambda>a b. drop (length a + 1) b) \<rparr>"

definition headingBodyExample :: string where
  "headingBodyExample = ''Intro'' @ [NEWLINE] @ ''# First'' @ [NEWLINE] @ ''# Second''"

text \<open>A stand-in for \<open>processFile\<close> that always rejects, as the repository's test has it.\<close>

definition rejectingProcessFile :: "string \<Rightarrow> string \<Rightarrow> string + RuleContent option" where
  "rejectingProcessFile file srcDir = Inl ''Processing error''"

text \<open>A sequence of 160 cross-references of which 23 are valid.\<close>

definition rateSample :: "CrossReference list" where
  "rateSample =
     replicate 23 \<lparr>original = ''./valid.mdc'', resolved = ''/rules/valid'', isValid = True\<rparr>
     @ replicate 137 \<lparr>original = ''./broken.mdc'', resolved = ''/rules/broken'', isValid = False\<rparr>"

definition metadataBlockExample :: string where
  "metadataBlockExample =
     ''---'' @ [NEWLINE] @ ''title: Test'' @ [NEWLINE] @ ''published: true'' @ [NEWLINE]
       @ ''count: 3'' @ [NEWLINE] @ ''---'' @ [NEWLINE] @ ''Body''"

definition protoBlockExample :: "string list" where
  "protoBlockExample = [''__proto__: x'', ''name: rule'', ''__proto__: null'', ''__proto__: y'']"

definition nullGlobsFile :: string where
  "nullGlobsFile = ''---'' @ [NEWLINE] @ ''globs: null'' @ [NEWLINE] @ ''---'' @ [NEWLINE] @ ''Body''"

section \<open>Properties of the sidebar generator\<close>

text \<open>
  Claim C10. When \<open>sidebar_position\<close> is the number 0 the extraction behaves as if the
  key were absent: the result is that of the map without the key, and it is no position
  when \<open>sidebarPosition\<close> is absent too. When \<open>sidebar_position\<close> is truthy the result does
  not depend on \<open>sidebarPosition\<close>.
\<close>

theorem extractSidebarPosition_zero_and_precedence:
  "(get m ''sidebar_position'' = VNum 0 \<longrightarrow>
      extractSidebarPosition m = extractSidebarPosition (m(''sidebar_position'' := None)))
   \<and> (get m ''sidebar_position'' = VNum 0 \<and> m ''sidebarPosition'' = None \<longrightarrow>
      extractSidebarPosition m = None)
   \<and> (truthy (get m ''sidebar_position'') \<longrightarrow>
      extractSidebarPosition (m(''sidebarPosition'' := w)) = extractSidebarPosition m)"
  by (simp add: extractSidebarPosition_def get_def)

theorem extractSidebarPosition_zero_and_precedence_witness:
  "get [''sidebar_position'' \<mapsto> VNum 0, ''sidebarPosition'' \<mapsto> VNum 5] ''sidebar_position'' = VNum 0
   \<and> extractSidebarPosition [''sidebar_position'' \<mapsto> VNum 0, ''sidebarPosition'' \<mapsto> VNum 5]
       = extractSidebarPosition
           ([''sidebar_position'' \<mapsto> VNum 0, ''sidebarPosition'' \<mapsto> VNum 5](''sidebar_position'' := None))
   \<and> extractSidebarPosition [''sidebar_position'' \<mapsto> VNum 0, ''sidebarPosition'' \<mapsto> VNum 5] = Some 5
   \<and> extractSidebarPosition [''sidebar_position'' \<mapsto> VNum 0] = None
   \<and> truthy (get [''sidebar_position'' \<mapsto> VNum 2] ''sidebar_position'')
   \<and> extractSidebarPosition ([''sidebar_position'' \<mapsto> VNum 2](''sidebarPosition'' \<mapsto> VNum 7))
       = extractSidebarPosition [''sidebar_position'' \<mapsto> VNum 2]
   \<and> extractSidebarPosition [''sidebar_position'' \<mapsto> VNum 2] = Some 2"
proof -
  let ?m1 = "[''sidebar_position'' \<mapsto> VNum 0, ''sidebarPosition'' \<mapsto> VNum 5]"
  let ?m2 = "[''sidebar_position'' \<mapsto> VNum 0]"
  let ?m3 = "[''sidebar_position'' \<mapsto> VNum 2]"
  have h1: "get ?m1 ''sidebar_position'' = VNum 0" by (simp add: get_def)
  have h2: "get ?m2 ''sidebar_position'' = VNum 0 \<and> ?m2 ''sidebarPosition'' = None"
    by (simp add: get_def)
  have h3: "truthy (get ?m3 ''sidebar_position'')" by (simp add: get_def)
  have c1: "extractSidebarPosition ?m1 = extractSidebarPosition (?m1(''sidebar_position'' := None))"
    using extractSidebarPosition_zero_and_precedence [of ?m1 None] h1 by blast
  have c2: "extractSidebarPosition ?m2 = None"
    using extractSidebarPosition_zero_and_precedence [of ?m2 None] h2 by blast
  have c3: "extractSidebarPosition (?m3(''sidebarPosition'' \<mapsto> VNum 7)) = extractSidebarPosition ?m3"
    using extractSidebarPosition_zero_and_precedence [of ?m3 "Some (VNum 7)"] h3 by blast
  have v1: "extractSidebarPosition ?m1 = Some 5"
    by (simp add: extractSidebarPosition_def get_def)
  have v3: "extractSidebarPosition ?m3 = Some 2"
    by (simp add: extractSidebarPosition_def get_def)
  from h1 c1 v1 c2 h3 c3 v3 show ?thesis by (intro conjI)
qed

lemma set_insort_cmp: "set (insort_cmp cmp x ys) = insert x (set ys)"
  by (induction ys) auto

lemma mset_insort_cmp: "mset (insort_cmp cmp x ys) = add_mset x (mset ys)"
  by (induction ys) auto

lemma mset_sort_cmp: "mset (sort_cmp cmp xs) = mset xs"
  by (induction xs) (simp_all add: sort_cmp_def mset_insort_cmp)

lemma sorted_insort_cmp:
  assumes tot: "\<And>a b. cmp a b \<le> 0 \<or> cmp b a \<le> 0"
    and trans: "\<And>a b c. cmp a b \<le> 0 \<Longrightarrow> cmp b c \<le> 0 \<Longrightarrow> cmp a c \<le> 0"
    and srt: "sorted_wrt (\<lambda>a b. cmp a b \<le> 0) ys"
  shows "sorted_wrt (\<lambda>a b. cmp a b \<le> 0) (insort_cmp cmp x ys)"
  using srt
proof (induction ys)
  case Nil
  then show ?case by simp
next
  case (Cons y ys)
  show ?case
  proof (cases "cmp x y \<le> 0")
    case True
    with Cons.prems show ?thesis using trans by auto
  next
    case False
    with tot [of x y] have "cmp y x \<le> 0" by simp
    with False Cons show ?thesis by (auto simp: set_insort_cmp)
  qed
qed

lemma sorted_sort_cmp:
  assumes "\<And>a b. cmp a b \<le> 0 \<or> cmp b a \<le> 0"
    and "\<And>a b c. cmp a b \<le> 0 \<Longrightarrow> cmp b c \<le> 0 \<Longrightarrow> cmp a c \<le> 0"
  shows "sorted_wrt (\<lambda>a b. cmp a b \<le> 0) (sort_cmp cmp xs)"
proof (induction xs)
  case Nil
  then show ?case by (simp add: sort_cmp_def)
next
  case (Cons x xs)
  have "sort_cmp cmp (x # xs) = insort_cmp cmp x (sort_cmp cmp xs)" by (simp add: sort_cmp_def)
  with Cons assms show ?case by (simp add: sorted_insort_cmp)
qed

lemma compareItems_total:
  assumes "\<And>a b. lc a b \<le> 0 \<or> lc b a \<le> 0"
  shows "compareItems lc a b \<le> 0 \<or> compareItems lc b a \<le> 0"
  using assms [of "label a" "label b"]
  by (cases "position a"; cases "position b") (auto simp: compareItems_def)

lemma compareItems_trans:
  assumes "\<And>a b c. lc a b \<le> 0 \<Longrightarrow> lc b c \<le> 0 \<Longrightarrow> lc a c \<le> 0"
    and "compareItems lc a b \<le> 0" and "compareItems lc b c \<le> 0"
  shows "compareItems lc a c \<le> 0"
  using assms(2,3) assms(1) [of "label a" "label b" "label c"]
  by (cases "position a"; cases "position b"; cases "position c")
     (auto simp: compareItems_def split: if_splits)

lemma sorted_split_positioned:
  assumes "sorted_wrt (\<lambda>a b. compareItems lc a b \<le> 0) ys"
  shows "ys = filter (\<lambda>x. position x \<noteq> None) ys @ filter (\<lambda>x. position x = None) ys"
  using assms
proof (induction ys)
  case Nil
  then show ?case by simp
next
  case (Cons y ys)
  then have ih: "ys = filter (\<lambda>x. position x \<noteq> None) ys @ filter (\<lambda>x. position x = None) ys"
    by simp
  show ?case
  proof (cases "position y")
    case None
    have "\<forall>z \<in> set ys. position z = None"
    proof
      fix z assume "z \<in> set ys"
      with Cons.prems have "compareItems lc y z \<le> 0" by simp
      with None show "position z = None" by (cases "position z") (auto simp: compareItems_def)
    qed
    then have "filter (\<lambda>x. position x \<noteq> None) ys = []" "filter (\<lambda>x. position x = None) ys = ys"
      by (auto simp: filter_empty_conv filter_id_conv)
    with None show ?thesis by simp
  next
    case (Some p)
    with ih show ?thesis by simp
  qed
qed

lemma sorted_positions:
  assumes "sorted_wrt (\<lambda>a b. compareItems lc a b \<le> 0) ys"
  shows "sorted (List.map_filter position ys)"
proof -
  have "sorted_wrt (\<lambda>a b. compareItems lc a b \<le> 0) (filter (\<lambda>x. position x \<noteq> None) ys)"
    using assms by (rule sorted_wrt_filter)
  then have "sorted_wrt (\<lambda>a b. the (position a) \<le> the (position b)) (filter (\<lambda>x. position x \<noteq> None) ys)"
    by (rule sorted_wrt_mono_rel [rotated]) (auto simp: compareItems_def)
  then show ?thesis
    by (simp add: List.map_filter_def sorted_wrt_map o_def)
qed

lemma sorted_labels:
  assumes "sorted_wrt (\<lambda>a b. compareItems lc a b \<le> 0) ys"
  shows "sorted_wrt (\<lambda>a b. lc a b \<le> 0) (map label (filter (\<lambda>x. position x = None) ys))"
proof -
  have "sorted_wrt (\<lambda>a b. compareItems lc a b \<le> 0) (filter (\<lambda>x. position x = None) ys)"
    using assms by (rule sorted_wrt_filter)
  then have "sorted_wrt (\<lambda>a b. lc (label a) (label b) \<le> 0) (filter (\<lambda>x. position x = None) ys)"
    by (rule sorted_wrt_mono_rel [rotated]) (auto simp: compareItems_def)
  then show ?thesis by (simp add: sorted_wrt_map)
qed

text \<open>
  Claim C7. For every sibling list of links and categories, and every \<open>localeCompare\<close>
  that is a total preorder on labels: the sorted list is a rearrangement of the list; its
  items with a position all come before its items without one; the positions are in
  ascending order; the labels of the items without a position are in the order of
  \<open>localeCompare\<close>.
\<close>

theorem sortSidebarItems_sorted:
  assumes tot: "\<And>a b. localeCompare a b \<le> 0 \<or> localeCompare b a \<le> 0"
    and trans: "\<And>a b c. localeCompare a b \<le> 0 \<Longrightarrow> localeCompare b c \<le> 0 \<Longrightarrow> localeCompare a c \<le> 0"
  shows "mset (sortSidebarItems localeCompare its) = mset its
    \<and> sortSidebarItems localeCompare its =
        filter (\<lambda>x. position x \<noteq> None) (sortSidebarItems localeCompare its)
        @ filter (\<lambda>x. position x = None) (sortSidebarItems localeCompare its)
    \<and> sorted (List.map_filter position (sortSidebarItems localeCompare its))
    \<and> sorted_wrt (\<lambda>a b. localeCompare a b \<le> 0)
        (map label (filter (\<lambda>x. position x = None) (sortSidebarItems localeCompare its)))"
proof -
  have s: "sorted_wrt (\<lambda>a b. compareItems localeCompare a b \<le> 0) (sortSidebarItems localeCompare its)"
    unfolding sortSidebarItems_def
    by (rule sorted_sort_cmp) (use compareItems_total [of localeCompare] compareItems_trans [of localeCompare] tot trans in blast)+
  show ?thesis
    using sorted_split_positioned [OF s] sorted_positions [OF s] sorted_labels [OF s]
    by (simp add: sortSidebarItems_def mset_sort_cmp)
qed


theorem sortSidebarItems_sorted_witness:
  "mset (sortSidebarItems codeUnitCompare
      [Link ''Task Levels'' ''/rules/task-levels'' None,
       Link ''Plan Mode'' ''/rules/modes/plan'' (Some 2),
       Category ''Modes'' [] True True None,
       Link ''Main Rule'' ''/rules/main'' (Some 1)])
    = mset
      [Link ''Task Levels'' ''/rules/task-levels'' None,
       Link ''Plan Mode'' ''/rules/modes/plan'' (Some 2),
       Category ''Modes'' [] True True None,
       Link ''Main Rule'' ''/rules/main'' (Some 1)]
   \<and> sorted (List.map_filter position (sortSidebarItems codeUnitCompare
      [Link ''Task Levels'' ''/rules/task-levels'' None,
       Link ''Plan Mode'' ''/rules/modes/plan'' (Some 2),
       Category ''Modes'' [] True True None,
       Link ''Main Rule'' ''/rules/main'' (Some 1)]))
   \<and> sortSidebarItems codeUnitCompare
      [Link ''Task Levels'' ''/rules/task-levels'' None,
       Link ''Plan Mode'' ''/rules/modes/plan'' (Some 2),
       Category ''Modes'' [] True True None,
       Link ''Main Rule'' ''/rules/main'' (Some 1)]
    = [Link ''Main Rule'' ''/rules/main'' (Some 1),
       Link ''Plan Mode'' ''/rules/modes/plan'' (Some 2),
       Category ''Modes'' [] True True None,
       Link ''Task Levels'' ''/rules/task-levels'' None]"
proof -
  let ?its = "[Link ''Task Levels'' ''/rules/task-levels'' None,
       Link ''Plan Mode'' ''/rules/modes/plan'' (Some 2),
       Category ''Modes'' [] True True None,
       Link ''Main Rule'' ''/rules/main'' (Some 1)]"
  note spec = sortSidebarItems_sorted [of codeUnitCompare ?its]
  have c1: "mset (sortSidebarItems codeUnitCompare ?its) = mset ?its"
    by (rule spec [THEN conjunct1]) (auto simp: codeUnitCompare_def split: if_splits)
  have c2: "sorted (List.map_filter position (sortSidebarItems codeUnitCompare ?its))"
    by (rule spec [THEN conjunct2, THEN conjunct2, THEN conjunct1])
       (auto simp: codeUnitCompare_def split: if_splits)
  have v: "sortSidebarItems codeUnitCompare ?its
    = [Link ''Main Rule'' ''/rules/main'' (Some 1),
       Link ''Plan Mode'' ''/rules/modes/plan'' (Some 2),
       Category ''Modes'' [] True True None,
       Link ''Task Levels'' ''/rules/task-levels'' None]"
    by (simp add: sortSidebarItems_def sort_cmp_def compareItems_def codeUnitCompare_def)
  from c1 c2 v show ?thesis by (intro conjI)
qed

section \<open>Properties of the numbers\<close>

lemma pow2_powi: "pow2 e = 2 powi e"
  by (simp add: pow2_def power_int_def field_simps)

lemma pow2_pos: "0 < pow2 e"
  by (simp add: pow2_def)

lemma pow2_add: "pow2 (a + b) = pow2 a * pow2 b"
  by (simp add: pow2_powi power_int_add)

lemma pow2_nat: "pow2 (int n) = 2 ^ n"
  by (simp add: pow2_def)

lemma bit_length_nonneg: "0 \<le> bit_length n"
  by (induction n rule: bit_length.induct) (simp add: bit_length.simps)

lemma bit_length_bounds:
  "0 < n \<Longrightarrow> 2 ^ nat (bit_length n - 1) \<le> n \<and> n < 2 ^ nat (bit_length n)"
proof (induction n rule: bit_length.induct)
  case (1 n)
  show ?case
  proof (cases "n = 1")
    case True
    then show ?thesis by (simp add: bit_length.simps [of 1] bit_length.simps [of 0])
  next
    case False
    with 1 have h: "0 < n div 2" by simp
    then have ih: "2 ^ nat (bit_length (n div 2) - 1) \<le> n div 2 \<and> n div 2 < 2 ^ nat (bit_length (n div 2))"
      using 1 by simp
    have b: "bit_length n = 1 + bit_length (n div 2)" using 1(2) by (simp add: bit_length.simps [of n])
    have pos: "1 \<le> bit_length (n div 2)"
      using h by (simp add: bit_length.simps [of "n div 2"] bit_length_nonneg)
    then have e1: "nat (bit_length n - 1) = Suc (nat (bit_length (n div 2) - 1))"
      unfolding b by simp
    have e2: "nat (bit_length n) = Suc (nat (bit_length (n div 2)))"
      unfolding b using pos by simp
    have d: "2 * (n div 2) \<le> n" "n < 2 * (n div 2) + 2" by presburger+
    define A where "A = (2::int) ^ nat (bit_length (n div 2) - 1)"
    define B where "B = (2::int) ^ nat (bit_length (n div 2))"
    from ih have "A \<le> n div 2" "n div 2 < B" by (simp_all add: A_def B_def)
    with d have "2 * A \<le> n \<and> n < 2 * B" by linarith
    then show ?thesis unfolding e1 e2 by (simp add: A_def B_def)
  qed
qed

lemma quotient_of_abs:
  assumes "x \<noteq> 0"
  shows "0 < fst (quotient_of \<bar>x\<bar>) \<and> 0 < snd (quotient_of \<bar>x\<bar>)
     \<and> \<bar>x\<bar> = of_int (fst (quotient_of \<bar>x\<bar>)) / of_int (snd (quotient_of \<bar>x\<bar>))"
proof -
  obtain p q where pq: "quotient_of \<bar>x\<bar> = (p, q)" by (cases "quotient_of \<bar>x\<bar>") auto
  then have q: "0 < q" by (rule quotient_of_denom_pos)
  have v: "\<bar>x\<bar> = of_int p / of_int q" using pq by (rule quotient_of_div)
  have "0 < \<bar>x\<bar>" using assms by simp
  with v q have "0 < p" by (simp add: zero_less_divide_iff)
  with q v pq show ?thesis by simp
qed

lemma exponent_le:
  assumes "x \<noteq> 0"
  shows "pow2 (exponent x) \<le> \<bar>x\<bar>"
proof -
  define p where "p = fst (quotient_of \<bar>x\<bar>)"
  define q where "q = snd (quotient_of \<bar>x\<bar>)"
  define a where "a = bit_length p - bit_length q"
  have pq: "0 < p" "0 < q" "\<bar>x\<bar> = of_int p / of_int q"
    using quotient_of_abs [OF assms] by (simp_all add: p_def q_def)
  have e: "exponent x = (if pow2 a \<le> \<bar>x\<bar> then a else a - 1)"
    by (simp add: exponent_def Let_def a_def p_def q_def)
  show ?thesis
  proof (cases "pow2 a \<le> \<bar>x\<bar>")
    case True
    then show ?thesis by (simp add: e)
  next
    case False
    have bp: "2 ^ nat (bit_length p - 1) \<le> p" using bit_length_bounds [OF pq(1)] by simp
    have bq: "q < 2 ^ nat (bit_length q)" using bit_length_bounds [OF pq(2)] by simp
    have lp: "1 \<le> bit_length p" using pq(1) by (simp add: bit_length.simps [of p] bit_length_nonneg)
    have lq: "0 \<le> bit_length q" by (rule bit_length_nonneg)
    have "pow2 (a - 1) * of_int q \<le> pow2 (a - 1) * 2 ^ nat (bit_length q)"
    proof (rule mult_left_mono)
      have "(of_int q :: rat) \<le> of_int (2 ^ nat (bit_length q))" using bq by (simp only: of_int_le_iff)
      then show "(of_int q :: rat) \<le> 2 ^ nat (bit_length q)" by simp
      show "0 \<le> pow2 (a - 1)" using pow2_pos [of "a - 1"] by simp
    qed
    also have "(2::rat) ^ nat (bit_length q) = pow2 (bit_length q)" using lq by (simp add: pow2_def)
    also have "pow2 (a - 1) * pow2 (bit_length q) = pow2 (bit_length p - 1)"
      by (simp add: pow2_add [symmetric] a_def)
    also have "\<dots> = 2 ^ nat (bit_length p - 1)" using lp by (simp add: pow2_def)
    also have "\<dots> \<le> of_int p"
    proof -
      have "(of_int (2 ^ nat (bit_length p - 1)) :: rat) \<le> of_int p" using bp by (simp only: of_int_le_iff)
      then show ?thesis by simp
    qed
    finally have "pow2 (a - 1) * of_int q \<le> of_int p" .
    then have "pow2 (a - 1) \<le> of_int p / of_int q" using pq(2) by (simp add: pos_le_divide_eq)
    with False pq(3) show ?thesis by (simp add: e)
  qed
qed

lemma round_half_even_near: "\<bar>of_int (round_half_even y) - y\<bar> \<le> 1 / 2"
proof -
  have "of_int \<lfloor>y\<rfloor> \<le> y" "y < of_int \<lfloor>y\<rfloor> + 1" by linarith+
  then show ?thesis by (auto simp: round_half_even_def Let_def)
qed

lemma toDouble_error:
  "\<bar>toDouble x - x\<bar> \<le> max (\<bar>x\<bar> / 2 ^ 53) (1 / 2 ^ 1075)"
proof (cases "x = 0")
  case True
  then show ?thesis by (simp add: toDouble_def)
next
  case False
  define q where "q = pow2 (max (exponent x) (- 1022) - 52)"
  have q: "0 < q" by (simp add: q_def pow2_pos)
  have t: "toDouble x = of_int (round_half_even (x / q)) * q"
    using False by (simp add: toDouble_def Let_def q_def)
  have "\<bar>of_int (round_half_even (x / q)) - x / q\<bar> \<le> 1 / 2" by (rule round_half_even_near)
  then have "\<bar>of_int (round_half_even (x / q)) - x / q\<bar> * q \<le> 1 / 2 * q"
    using q by (intro mult_right_mono) simp_all
  moreover have "\<bar>of_int (round_half_even (x / q)) - x / q\<bar> * q = \<bar>toDouble x - x\<bar>"
  proof -
    have "\<bar>of_int (round_half_even (x / q)) - x / q\<bar> * q
        = \<bar>(of_int (round_half_even (x / q)) - x / q) * q\<bar>"
      using q by (simp add: abs_mult)
    also have "(of_int (round_half_even (x / q)) - x / q) * q = toDouble x - x"
      using q by (simp add: t algebra_simps)
    finally show ?thesis .
  qed
  ultimately have err: "\<bar>toDouble x - x\<bar> \<le> q / 2" by simp
  show ?thesis
  proof (cases "- 1022 \<le> exponent x")
    case True
    then have "q = pow2 (exponent x + (- 52))" by (simp add: q_def max_def)
    also have "\<dots> = pow2 (exponent x) * pow2 (- 52)" by (rule pow2_add)
    also have "pow2 (- 52) = 1 / 2 ^ 52" by (simp add: pow2_def)
    finally have "q / 2 = pow2 (exponent x) / 2 ^ 53" by simp
    also have "\<dots> \<le> \<bar>x\<bar> / 2 ^ 53"
      using exponent_le [OF False] by (simp add: divide_right_mono)
    finally have "q / 2 \<le> \<bar>x\<bar> / 2 ^ 53" .
    with err have "\<bar>toDouble x - x\<bar> \<le> \<bar>x\<bar> / 2 ^ 53" by (rule order_trans)
    then show ?thesis by (rule max.coboundedI1)
  next
    case False
    then have "q = pow2 (- 1074)" by (simp add: q_def max_def)
    then have "q / 2 = 1 / 2 ^ 1075" by (simp add: pow2_def)
    with err have "\<bar>toDouble x - x\<bar> \<le> 1 / 2 ^ 1075" by (simp only:)
    then show ?thesis by (rule max.coboundedI2)
  qed
qed

lemma toDouble_rel:
  assumes "1 / 2 ^ 1022 \<le> \<bar>x\<bar>"
  shows "\<bar>toDouble x - x\<bar> \<le> \<bar>x\<bar> / 2 ^ 53"
proof -
  have "(1::rat) / 2 ^ 1075 = (1 / 2 ^ 1022) / 2 ^ 53" by (simp add: power_add [symmetric])
  also have "\<dots> \<le> \<bar>x\<bar> / 2 ^ 53" using assms by (rule divide_right_mono) simp
  finally have "max (\<bar>x\<bar> / 2 ^ 53) (1 / 2 ^ 1075) = \<bar>x\<bar> / 2 ^ 53" by (simp only: max_def if_False not_le split: if_splits) auto
  with toDouble_error [of x] show ?thesis by simp
qed

lemma toDouble_abs:
  assumes "1 / 2 ^ 1022 \<le> x" and "x \<le> b"
  shows "\<bar>toDouble x - x\<bar> \<le> b / 2 ^ 53" and "x / 2 \<le> toDouble x"
proof -
  have pos: "0 < x" using assms(1) by (rule less_le_trans [rotated]) simp
  then have ax: "\<bar>x\<bar> = x" by simp
  have r: "\<bar>toDouble x - x\<bar> \<le> x / 2 ^ 53" using toDouble_rel [of x] assms(1) ax by simp
  also have "\<dots> \<le> b / 2 ^ 53" using assms(2) by (rule divide_right_mono) simp
  finally show "\<bar>toDouble x - x\<bar> \<le> b / 2 ^ 53" .
  have "x / 2 ^ 53 \<le> x / 2 ^ 1" using pos by (intro divide_left_mono power_increasing) simp_all
  with r have "\<bar>toDouble x - x\<bar> \<le> x / 2" by simp
  then show "x / 2 \<le> toDouble x" by linarith
qed

lemma rate_error:
  fixes v t :: nat
  assumes "0 < v" and "v \<le> t" and "t < 2 ^ 32"
  shows "\<bar>double_mul (double_mul (double_div (of_nat v) (of_nat t)) 100) 100
           - 10000 * of_nat v / of_nat t\<bar> \<le> 40100 / 2 ^ 53"
proof -
  define p where "p = (of_nat v :: rat) / of_nat t"
  define x1 where "x1 = toDouble p"
  define x2 where "x2 = toDouble (x1 * 100)"
  define x3 where "x3 = toDouble (x2 * 100)"
  define U where "U = (1::rat) / 2 ^ 53"
  define L where "L = (1::rat) / 2 ^ 32"
  have U: "0 < U" "U \<le> 1 / 1000" by (simp_all add: U_def)
  have L: "0 < L" by (simp add: L_def)
  have t: "0 < t" using assms(1,2) by simp
  have tb: "(of_nat t :: rat) \<le> 2 ^ 32"
  proof -
    have "(of_nat t :: rat) \<le> of_nat (2 ^ 32)" using assms(3) by (simp only: of_nat_le_iff less_imp_le)
    then show ?thesis by simp
  qed
  have p1: "p \<le> 1" using assms(2) t by (simp add: p_def)
  have "1 / 2 ^ 32 \<le> 1 / (of_nat t :: rat)" using tb t by (intro divide_left_mono) simp_all
  also have "\<dots> \<le> p" using assms(1) t by (simp add: p_def divide_right_mono)
  finally have p0: "L \<le> p" by (simp add: L_def)
  have small: "(1::rat) / 2 ^ 1022 \<le> L / 2"
  proof -
    have "(1::rat) / 2 ^ 1022 \<le> 1 / 2 ^ 33" by (intro divide_left_mono power_increasing) simp_all
    then show ?thesis by (simp add: L_def)
  qed
  have pn: "1 / 2 ^ 1022 \<le> p" using small p0 L by linarith
  have e1: "\<bar>x1 - p\<bar> \<le> U" and l1: "p / 2 \<le> x1"
    using toDouble_abs [OF pn p1] by (simp_all add: x1_def U_def)
  have n2: "1 / 2 ^ 1022 \<le> x1 * 100" using l1 p0 small L by linarith
  have b2: "x1 * 100 \<le> 200" using e1 p1 U by linarith
  have e2: "\<bar>x2 - x1 * 100\<bar> \<le> 200 * U" and l2: "x1 * 100 / 2 \<le> x2"
    using toDouble_abs [OF n2 b2] by (simp_all add: x2_def U_def)
  have n3: "1 / 2 ^ 1022 \<le> x2 * 100" using l2 l1 p0 small L by linarith
  have b3: "x2 * 100 \<le> 10100" using e2 e1 p1 U by linarith
  have e3: "\<bar>x3 - x2 * 100\<bar> \<le> 10100 * U"
    using toDouble_abs(1) [OF n3 b3] by (simp add: x3_def U_def)
  have "\<bar>x3 - 10000 * p\<bar> \<le> 40100 * U" using e1 e2 e3 by linarith
  then show ?thesis
    by (simp add: x3_def x2_def x1_def p_def double_mul_def double_div_def U_def)
qed

lemma Math_round_rate:
  fixes v t :: nat
  assumes "0 < t" and "v \<le> t" and "t < 2 ^ 32"
  shows "\<bar>of_int (Math_round (double_mul (double_mul (double_div (of_nat v) (of_nat t)) 100) 100))
           - 10000 * of_nat v / of_nat t\<bar> \<le> (1::rat) / 2"
proof (cases "v = 0")
  case True
  have "\<lfloor>(1::rat) / 2\<rfloor> = 0" by (simp add: floor_eq_iff)
  with True show ?thesis
    by (simp add: double_mul_def double_div_def toDouble_def Math_round_def)
next
  case False
  define x3 where "x3 = double_mul (double_mul (double_div (of_nat v) (of_nat t)) 100) 100"
  define P where "P = 10000 * (of_nat v :: rat) / of_nat t"
  define k where "k = Math_round x3"
  define T where "T = (of_nat t :: rat)"
  have err: "\<bar>x3 - P\<bar> \<le> 40100 / 2 ^ 53"
    using rate_error [of v t] False assms by (simp add: x3_def P_def)
  have k1: "of_int k \<le> x3 + 1 / 2" and k2: "x3 + 1 / 2 < of_int k + 1"
    unfolding k_def Math_round_def by linarith+
  have T0: "0 < T" using assms(1) by (simp add: T_def)
  have TP: "T * P = 10000 * of_nat v" using assms(1) by (simp add: T_def P_def)
  have Tb: "T < 2 ^ 32"
  proof -
    have "(of_nat t :: rat) < of_nat (2 ^ 32)" using assms(3) by (simp only: of_nat_less_iff)
    then show ?thesis by (simp add: T_def)
  qed
  have d: "2 * T * (40100 / 2 ^ 53) < 1"
  proof -
    have "2 * T * (40100 / 2 ^ 53) < 2 * 2 ^ 32 * (40100 / 2 ^ 53)"
      using Tb by (intro mult_strict_right_mono mult_strict_left_mono) simp_all
    also have "\<dots> < (1::rat)" by simp
    finally show ?thesis .
  qed
  have up: "of_int k - P \<le> 1 / 2"
  proof -
    define N where "N = 2 * k * int t - 20000 * int v - int t"
    have N: "(of_int N :: rat) = 2 * T * (of_int k - P - 1 / 2)"
      using TP by (simp add: N_def T_def algebra_simps)
    have "of_int k - P - 1 / 2 \<le> 40100 / 2 ^ 53" using k1 err by linarith
    then have "2 * T * (of_int k - P - 1 / 2) \<le> 2 * T * (40100 / 2 ^ 53)"
      using T0 by (intro mult_left_mono) simp_all
    with d N have "(of_int N :: rat) < 1" by linarith
    then have "N < 1" by (simp only: of_int_less_1_iff)
    then have "(of_int N :: rat) \<le> 0" by simp
    with N have "2 * T * (of_int k - P - 1 / 2) \<le> 0" by simp
    with T0 have "of_int k - P - 1 / 2 \<le> 0" by (simp add: mult_le_0_iff)
    then show ?thesis by simp
  qed
  have lo: "P - of_int k \<le> 1 / 2"
  proof -
    define M where "M = 20000 * int v - 2 * k * int t - int t"
    have M: "(of_int M :: rat) = 2 * T * (P - of_int k - 1 / 2)"
      using TP by (simp add: M_def T_def algebra_simps)
    have "P - of_int k - 1 / 2 \<le> 40100 / 2 ^ 53" using k2 err by linarith
    then have "2 * T * (P - of_int k - 1 / 2) \<le> 2 * T * (40100 / 2 ^ 53)"
      using T0 by (intro mult_left_mono) simp_all
    with d M have "(of_int M :: rat) < 1" by linarith
    then have "M < 1" by (simp only: of_int_less_1_iff)
    then have "(of_int M :: rat) \<le> 0" by simp
    with M have "2 * T * (P - of_int k - 1 / 2) \<le> 0" by simp
    with T0 have "P - of_int k - 1 / 2 \<le> 0" by (simp add: mult_le_0_iff)
    then show ?thesis by simp
  qed
  from up lo have "\<bar>of_int k - P\<bar> \<le> 1 / 2" by linarith
  then show ?thesis by (simp add: k_def x3_def P_def)
qed

lemma pow2_mono: "a \<le> b \<Longrightarrow> pow2 a \<le> pow2 b"
  by (simp add: pow2_powi power_int_increasing)

lemma round_half_even_int: "round_half_even (of_int n) = n"
  by (simp add: round_half_even_def)

lemma toDouble_int:
  assumes "\<bar>n\<bar> < 2 ^ 53"
  shows "toDouble (of_int n) = of_int n"
proof (cases "n = 0")
  case True
  then show ?thesis by (simp add: toDouble_def)
next
  case False
  define x where "x = (of_int n :: rat)"
  define m where "m = max (exponent x) (- 1022) - 52"
  have x0: "x \<noteq> 0" using False by (simp add: x_def)
  have "\<bar>x\<bar> = of_int \<bar>n\<bar>" by (simp add: x_def)
  also have "\<dots> < of_int (2 ^ 53)" using assms by (simp only: of_int_less_iff)
  finally have xb: "\<bar>x\<bar> < pow2 53" by (simp add: pow2_def)
  have "exponent x < 53"
  proof (rule ccontr)
    assume "\<not> exponent x < 53"
    then have "pow2 53 \<le> pow2 (exponent x)" by (intro pow2_mono) simp
    also have "\<dots> \<le> \<bar>x\<bar>" using x0 by (rule exponent_le)
    finally show False using xb by simp
  qed
  then have m: "m \<le> 0" by (simp add: m_def)
  then have q: "pow2 m = 1 / 2 ^ nat (- m)"
    by (cases "m = 0") (simp_all add: pow2_def)
  have "x / pow2 m = of_int (n * 2 ^ nat (- m))" by (simp add: q x_def)
  then have "round_half_even (x / pow2 m) = n * 2 ^ nat (- m)"
    by (simp only: round_half_even_int)
  then have "toDouble x = of_int (n * 2 ^ nat (- m)) * pow2 m"
    using x0 by (simp add: toDouble_def Let_def m_def)
  also have "\<dots> = x" by (simp add: q x_def)
  finally show ?thesis by (simp add: x_def)
qed

lemma toDouble_small [simp]:
  "toDouble 1 = 1" "toDouble 100 = 100" "toDouble 10000 = 10000"
  using toDouble_int [of 1] toDouble_int [of 100] toDouble_int [of 10000] by simp_all

section \<open>Properties of the resolution statistics\<close>

lemma valid_le_total: "length (filter isValid refs) \<le> length refs"
  by (rule length_filter_le)

lemma Math_round_int: "Math_round (of_int n) = n"
proof -
  have "\<lfloor>(of_int n :: rat) + 1 / 2\<rfloor> = n" by (simp add: floor_eq_iff)
  then show ?thesis by (simp add: Math_round_def)
qed

lemma rate_full: "double_div (of_int (Math_round (double_mul 100 100))) 100 = 100"
proof -
  have "double_mul 100 100 = of_int 10000" by (simp add: double_mul_def)
  then have "Math_round (double_mul 100 100) = 10000" by (simp only: Math_round_int)
  then show ?thesis by (simp add: double_div_def)
qed

lemma rate_two_of_three:
  "double_div (of_int (Math_round (double_mul (double_mul (double_div 2 3) 100) 100))) 100
     = toDouble (6667 / 100)"
  by code_simp

text \<open>
  Claim C8 as worded fails. With 23 valid references out of 160 the percentage is 14.375,
  which rounded to two decimal places is 14.38; the rate that is reported is 14.37, because
  the product computed on doubles is just below 1437.5.
\<close>

theorem getResolutionStats_tie_counterexample:
  "length rateSample = 160 \<and> length (filter isValid rateSample) = 23
   \<and> (23 / 160 * 100 :: rat) = 14375 / 1000
   \<and> rat_of_int (Math_round (23 / 160 * 100 * 100)) / 100 = 1438 / 100
   \<and> double_mul (double_mul (double_div 23 160) 100) 100 < 14375 / 10
   \<and> successRate (getResolutionStats rateSample) = toDouble (1437 / 100)
   \<and> successRate (getResolutionStats rateSample) \<noteq> toDouble (1438 / 100)"
  by code_simp

text \<open>
  Claim C8 (as the code has it). For every sequence of cross-references, the statistics
  report the length as total, the number of valid elements as valid and their difference
  as broken. For a non-empty sequence of fewer than \<open>2 ^ 32\<close> elements, the bound of an
  array, the success rate is the double nearest to \<open>k / 100\<close> for an integer \<open>k\<close> that is at
  most one half away from the percentage of valid elements times 100: \<open>k\<close> is the
  percentage in hundredths rounded to the nearest integer, and where the percentage lies
  exactly between two hundredths either of the two may be reported, as the product is
  computed on doubles. The empty sequence and every all-valid sequence have rate 100; two
  valid references out of three have rate 66.67, the double nearest to 6667 / 100.
\<close>

theorem getResolutionStats_spec:
  "total (getResolutionStats refs) = length refs
   \<and> valid (getResolutionStats refs) = length (filter isValid refs)
   \<and> int (broken (getResolutionStats refs)) =
       int (total (getResolutionStats refs)) - int (valid (getResolutionStats refs))
   \<and> (refs \<noteq> [] \<longrightarrow>
        successRate (getResolutionStats refs) =
          double_div (of_int (Math_round (double_mul (double_mul
            (double_div (of_nat (length (filter isValid refs))) (of_nat (length refs))) 100) 100))) 100)
   \<and> (refs \<noteq> [] \<and> length refs < 2 ^ 32 \<longrightarrow>
        (\<exists>k. successRate (getResolutionStats refs) = toDouble (of_int k / 100)
           \<and> \<bar>of_int k - 10000 * of_nat (length (filter isValid refs)) / of_nat (length refs)\<bar>
               \<le> (1::rat) / 2))
   \<and> (refs = [] \<longrightarrow> successRate (getResolutionStats refs) = 100)
   \<and> (refs \<noteq> [] \<and> list_all isValid refs \<longrightarrow> successRate (getResolutionStats refs) = 100)
   \<and> (length refs = 3 \<and> length (filter isValid refs) = 2
        \<longrightarrow> successRate (getResolutionStats refs) = toDouble (6667 / 100))"
proof -
  let ?v = "length (filter isValid refs)"
  let ?t = "length refs"
  let ?x = "double_mul (double_mul (double_div (of_nat ?v) (of_nat ?t)) 100) 100"
  have counts: "total (getResolutionStats refs) = length refs
     \<and> valid (getResolutionStats refs) = length (filter isValid refs)
     \<and> int (broken (getResolutionStats refs)) =
       int (total (getResolutionStats refs)) - int (valid (getResolutionStats refs))"
    using valid_le_total [of refs] by (simp add: getResolutionStats_def Let_def)
  have rate: "refs \<noteq> [] \<longrightarrow>
      successRate (getResolutionStats refs) = double_div (of_int (Math_round ?x)) 100"
    by (simp add: getResolutionStats_def Let_def)
  have near: "refs \<noteq> [] \<and> length refs < 2 ^ 32 \<longrightarrow>
        (\<exists>k. successRate (getResolutionStats refs) = toDouble (of_int k / 100)
           \<and> \<bar>of_int k - 10000 * of_nat ?v / of_nat ?t\<bar> \<le> (1::rat) / 2)"
  proof
    assume a: "refs \<noteq> [] \<and> length refs < 2 ^ 32"
    then have "0 < ?t" by simp
    then have "\<bar>of_int (Math_round ?x) - 10000 * of_nat ?v / of_nat ?t\<bar> \<le> (1::rat) / 2"
      using valid_le_total [of refs] a by (intro Math_round_rate) simp_all
    moreover have "successRate (getResolutionStats refs) = toDouble (of_int (Math_round ?x) / 100)"
      using rate a by (simp add: double_div_def)
    ultimately show "\<exists>k. successRate (getResolutionStats refs) = toDouble (of_int k / 100)
           \<and> \<bar>of_int k - 10000 * of_nat ?v / of_nat ?t\<bar> \<le> (1::rat) / 2"
      by blast
  qed
  have empty: "refs = [] \<longrightarrow> successRate (getResolutionStats refs) = 100"
    by (simp add: getResolutionStats_def Let_def rate_full)
  have allv: "refs \<noteq> [] \<and> list_all isValid refs \<longrightarrow> successRate (getResolutionStats refs) = 100"
  proof
    assume a: "refs \<noteq> [] \<and> list_all isValid refs"
    then have f: "filter isValid refs = refs" by (simp add: list_all_iff)
    have "double_div (of_nat ?t) (of_nat ?t) = 1" using a by (simp add: double_div_def)
    then have "double_mul (double_div (of_nat ?t) (of_nat ?t)) 100 = 100"
      by (simp add: double_mul_def)
    with a f show "successRate (getResolutionStats refs) = 100"
      by (simp add: getResolutionStats_def Let_def rate_full)
  qed
  have two: "length refs = 3 \<and> length (filter isValid refs) = 2
      \<longrightarrow> successRate (getResolutionStats refs) = toDouble (6667 / 100)"
  proof
    assume a: "length refs = 3 \<and> length (filter isValid refs) = 2"
    then have "refs \<noteq> []" by auto
    with a rate rate_two_of_three show "successRate (getResolutionStats refs) = toDouble (6667 / 100)"
      by simp
  qed
  from counts rate near empty allv two show ?thesis by blast
qed

theorem getResolutionStats_spec_witness:
  "successRate (getResolutionStats []) = 100
   \<and> successRate (getResolutionStats
        [\<lparr>original = ''./main.mdc'', resolved = ''/rules/main'', isValid = True\<rparr>,
         \<lparr>original = ''./valid.mdc'', resolved = ''/rules/valid'', isValid = True\<rparr>]) = 100
   \<and> successRate (getResolutionStats
        [\<lparr>original = ''./valid1.mdc'', resolved = ''/rules/valid1'', isValid = True\<rparr>,
         \<lparr>original = ''./valid2.mdc'', resolved = ''/rules/valid2'', isValid = True\<rparr>,
         \<lparr>original = ''./broken.mdc'', resolved = ''/rules/broken'', isValid = False\<rparr>])
       = toDouble (6667 / 100)
   \<and> toDouble (6667 / 100) = 4691484174324859 / 70368744177664
   \<and> rateSample \<noteq> [] \<and> length rateSample < 2 ^ 32
   \<and> (\<exists>k. successRate (getResolutionStats rateSample) = toDouble (of_int k / 100)
         \<and> \<bar>of_int k - 10000 * of_nat (length (filter isValid rateSample)) / of_nat (length rateSample)\<bar>
             \<le> (1::rat) / 2)"
proof -
  let ?two = "[\<lparr>original = ''./main.mdc'', resolved = ''/rules/main'', isValid = True\<rparr>,
         \<lparr>original = ''./valid.mdc'', resolved = ''/rules/valid'', isValid = True\<rparr>]"
  let ?three = "[\<lparr>original = ''./valid1.mdc'', resolved = ''/rules/valid1'', isValid = True\<rparr>,
         \<lparr>original = ''./valid2.mdc'', resolved = ''/rules/valid2'', isValid = True\<rparr>,
         \<lparr>original = ''./broken.mdc'', resolved = ''/rules/broken'', isValid = False\<rparr>]"
  have c1: "successRate (getResolutionStats []) = 100"
    using getResolutionStats_spec [of "[]"] by simp
  have c2: "successRate (getResolutionStats ?two) = 100"
    using getResolutionStats_spec [of ?two] by simp
  have c3: "successRate (getResolutionStats ?three) = toDouble (6667 / 100)"
    using getResolutionStats_spec [of ?three] by simp
  have v: "toDouble (6667 / 100) = 4691484174324859 / 70368744177664" by code_simp
  have h: "rateSample \<noteq> [] \<and> length rateSample < 2 ^ 32" by (simp add: rateSample_def)
  have c4: "\<exists>k. successRate (getResolutionStats rateSample) = toDouble (of_int k / 100)
         \<and> \<bar>of_int k - 10000 * of_nat (length (filter isValid rateSample)) / of_nat (length rateSample)\<bar>
             \<le> (1::rat) / 2"
    using getResolutionStats_spec [of rateSample] h by blast
  from c1 c2 c3 v h c4 show ?thesis by (intro conjI) simp_all
qed

section \<open>Evaluation rules\<close>

named_theorems js_eval

lemma includes_str_simps [js_eval]:
  "includes_str s [] = True"
  "includes_str [] (c # p) = False"
  "includes_str (x # xs) (c # p) = (prefix (c # p) (x # xs) \<or> includes_str xs (c # p))"
  by (simp_all add: includes_str_def sublist_Cons_right)

lemmas [js_eval] = trim_def is_space_def startsWith_def endsWith_def Let_def slice_def
  toLowerCase_def lower_char_def upper_units_def lower_units_def is_digit_def
  digits_val_def digit_val_def

lemmas [js_eval] = re_test_def re_match_def Lit_def Opt_def Plus_def no_captures_def
  mk_match_def set_capture_def is_line_terminator_def

lemma toDouble_numeral [js_eval]:
  "\<bar>numeral k :: int\<bar> < 2 ^ 53 \<Longrightarrow> toDouble (numeral k) = numeral k"
  using toDouble_int [of "numeral k"] by simp

lemmas [js_eval] = parseMetadata_def parseMetadataLines_def parseValue_def integer_re_def float_re_def
  assign_def parseInt_literal_def parseWithNormalization_def normalizeMetadata_def
  normalizeGlobs_def normalizeAlwaysApply_def removeNullish_def get_def


lemmas [js_eval] = has_def keys_def setDiscoveredFiles_def normalizeSeparators_def stripMdc_def
  stripDotSlash_def targetFilePath_def resolveSingleLink_def validateTargetExists_def
  path_join_def path_normalize_def path_basename_def availableFiles_def findSimilarFiles_def
  warningMessage_def generateWarnings_def suffix_to_prefix

section \<open>Properties of the matcher\<close>

lemma ms_Lit:
  "ms (Lit s) (bef, rest, caps) =
     (if prefix s rest then [(rev s @ bef, drop (length s) rest, caps)] else [])"
proof (induction s arbitrary: bef rest)
  case Nil
  then show ?case by (simp add: Lit_def)
next
  case (Cons c s)
  have unf: "Lit (c # s) = Cat (Atom (\<lambda>x. x = c)) (Lit s)" by (simp add: Lit_def)
  show ?case
  proof (cases rest)
    case Nil
    then show ?thesis by (simp add: unf)
  next
    case (Cons x xs)
    then show ?thesis using Cons.IH [of "x # bef" xs] by (auto simp: unf)
  qed
qed

lemma ms_Rep_Atom: "ms (Rep True (Atom p)) (bef, rest, caps) = star_states p bef rest caps"
  by (induction rest arbitrary: bef) simp_all

lemma star_states_end:
  "(\<exists>s \<in> set (star_states p bef xs caps). fst (snd s) = []) \<longleftrightarrow> list_all p xs"
  by (induction xs arbitrary: bef) auto

lemma search_Bol_later:
  "bef \<noteq> [] \<Longrightarrow> search (Cat (Bol False) r) bef rest = None"
  by (induction rest arbitrary: bef) simp_all

lemma re_test_Bol:
  "re_test (Cat (Bol False) r) v \<longleftrightarrow> ms r ([], v, no_captures) \<noteq> []"
  by (cases v) (auto simp: re_test_def re_match_def search_Bol_later split: list.splits)


lemma concat_map_nonempty: "concat (map f xs) \<noteq> [] \<longleftrightarrow> (\<exists>x \<in> set xs. f x \<noteq> [])"
  by (induction xs) auto

lemma ms_Eol_nonempty: "ms (Eol False) s \<noteq> [] \<longleftrightarrow> fst (snd s) = []"
  by (cases s) simp

lemma ms_digits_end:
  "ms (Cat (Plus True (Atom is_digit)) (Eol False)) (bef, rest, caps) \<noteq> [] \<longleftrightarrow> nonempty_digits rest"
proof (cases rest)
  case Nil
  then show ?thesis by (simp add: Plus_def nonempty_digits_def)
next
  case (Cons x xs)
  show ?thesis
  proof (cases "is_digit x")
    case False
    with Cons show ?thesis by (simp add: Plus_def nonempty_digits_def)
  next
    case True
    have "ms (Cat (Plus True (Atom is_digit)) (Eol False)) (bef, rest, caps)
        = concat (map (ms (Eol False)) (star_states is_digit (x # bef) xs caps))"
      using Cons True by (simp add: Plus_def ms_Rep_Atom del: ms.simps(5))
    then show ?thesis
      using Cons True star_states_end [of is_digit "x # bef" xs caps]
      by (simp add: concat_map_nonempty ms_Eol_nonempty nonempty_digits_def)
  qed
qed

lemma not_digit_minus: "\<not> is_digit (CHR ''-'')" and not_digit_dot: "\<not> is_digit (CHR ''.'')"
  by (simp_all add: is_digit_def)

lemma nonempty_digits_Cons: "nonempty_digits (x # xs) \<longleftrightarrow> is_digit x \<and> list_all is_digit xs"
  by (simp add: nonempty_digits_def)

lemma ms_Opt_Cat:
  "ms (Cat (Opt (Lit s)) r) (bef, rest, caps) \<noteq> [] \<longleftrightarrow>
     (prefix s rest \<and> ms r (rev s @ bef, drop (length s) rest, caps) \<noteq> [])
     \<or> ms r (bef, rest, caps) \<noteq> []"
  by (simp add: Opt_def ms_Lit)

lemma re_test_integer_re: "re_test integer_re v \<longleftrightarrow> int_shape v"
proof -
  have "re_test integer_re v \<longleftrightarrow>
      (prefix ''-'' v \<and> nonempty_digits (drop 1 v)) \<or> nonempty_digits v"
    unfolding integer_re_def re_test_Bol ms_Opt_Cat ms_digits_end by simp
  also have "\<dots> \<longleftrightarrow> int_shape v"
    using not_digit_minus by (cases v) (auto simp: int_shape_def nonempty_digits_Cons)
  finally show ?thesis .
qed

lemma star_states_frac:
  "(\<exists>st \<in> set (star_states is_digit bef xs caps). frac_ok (fst (snd st))) \<longleftrightarrow> float_body xs"
proof (induction xs arbitrary: bef)
  case Nil
  then show ?case by (simp add: frac_ok_def float_body_def nonempty_digits_def)
next
  case (Cons x xs)
  show ?case
  proof (cases "is_digit x")
    case True
    then have "x \<noteq> CHR ''.''" using not_digit_dot by auto
    with True Cons.IH [of "x # bef"] show ?thesis
      by (auto simp: frac_ok_def float_body_def nonempty_digits_def)
  next
    case False
    then show ?thesis
      by (auto simp: frac_ok_def float_body_def nonempty_digits_def)
  qed
qed

lemma ms_float_body:
  "ms (Cat (Rep True (Atom is_digit)) (Cat (Opt (Lit ''.'')) (Cat (Plus True (Atom is_digit)) (Eol False))))
      (bef, rest, caps) \<noteq> [] \<longleftrightarrow> float_body rest"
proof -
  have step: "\<And>st. ms (Cat (Opt (Lit ''.'')) (Cat (Plus True (Atom is_digit)) (Eol False))) st \<noteq> []
      \<longleftrightarrow> frac_ok (fst (snd st))"
  proof -
    fix st :: mstate
    obtain b r c where st: "st = (b, r, c)" by (cases st) auto
    show "ms (Cat (Opt (Lit ''.'')) (Cat (Plus True (Atom is_digit)) (Eol False))) st \<noteq> []
      \<longleftrightarrow> frac_ok (fst (snd st))"
      unfolding st ms_Opt_Cat ms_digits_end by (simp add: frac_ok_def)
  qed
  have "ms (Cat (Rep True (Atom is_digit)) (Cat (Opt (Lit ''.'')) (Cat (Plus True (Atom is_digit)) (Eol False))))
      (bef, rest, caps)
    = concat (map (ms (Cat (Opt (Lit ''.'')) (Cat (Plus True (Atom is_digit)) (Eol False))))
        (star_states is_digit bef rest caps))"
    by (simp only: ms.simps(3) ms_Rep_Atom)
  then show ?thesis
    by (simp only: concat_map_nonempty step star_states_frac)
qed

lemma re_test_float_re: "re_test float_re v \<longleftrightarrow> float_shape v"
proof -
  have "re_test float_re v \<longleftrightarrow> (prefix ''-'' v \<and> float_body (drop 1 v)) \<or> float_body v"
    unfolding float_re_def re_test_Bol ms_Opt_Cat ms_float_body by simp
  also have "\<dots> \<longleftrightarrow> float_shape v"
    using not_digit_minus
    by (cases v) (auto simp: float_shape_def float_body_def nonempty_digits_Cons nonempty_digits_def)
  finally show ?thesis .
qed

section \<open>Properties of the metadata normalisation\<close>

lemma parse_nullGlobsFile: "parseMetadata nullGlobsFile = ([''globs'' \<mapsto> VNull], ''Body'')"
  by (simp add: nullGlobsFile_def js_eval)

lemma normalizeMetadata_other:
  assumes "k \<noteq> ''globs''" and "k \<noteq> ''alwaysApply''"
  shows "normalizeMetadata m k =
    (case m k of None \<Rightarrow> None | Some v \<Rightarrow> if v = VUndefined \<or> v = VNull then None else Some v)"
proof -
  have "normalizeGlobs m k = m k"
    using assms(1) by (simp add: normalizeGlobs_def split: jsval.splits)
  moreover have "normalizeAlwaysApply (normalizeGlobs m) k = normalizeGlobs m k"
    using assms(2) by (simp add: normalizeAlwaysApply_def split: jsval.splits)
  ultimately show ?thesis by (simp add: normalizeMetadata_def removeNullish_def)
qed

lemma normalizeGlobs_globs:
  "normalizeGlobs m ''globs'' =
    (case get m ''globs'' of
       VUndefined \<Rightarrow> Some (VArr [])
     | VStr g \<Rightarrow> Some (VArr (if trim g = [] then [] else [g]))
     | v \<Rightarrow> Some v)"
  by (cases "m ''globs''") (simp_all add: normalizeGlobs_def get_def split: jsval.splits)

lemma normalizeAlwaysApply_alwaysApply:
  "normalizeAlwaysApply m ''alwaysApply'' =
    (case get m ''alwaysApply'' of
       VUndefined \<Rightarrow> Some (VBool False)
     | VStr a \<Rightarrow> Some (VBool (toLowerCase a = ''true''))
     | v \<Rightarrow> Some v)"
  by (cases "m ''alwaysApply''") (simp_all add: normalizeAlwaysApply_def get_def split: jsval.splits)

lemma normalizeAlwaysApply_globs: "normalizeAlwaysApply m ''globs'' = m ''globs''"
  by (simp add: normalizeAlwaysApply_def split: jsval.splits)

lemma normalizeGlobs_alwaysApply: "normalizeGlobs m ''alwaysApply'' = m ''alwaysApply''"
  by (simp add: normalizeGlobs_def split: jsval.splits)

lemma get_normalizeGlobs_alwaysApply: "get (normalizeGlobs m) ''alwaysApply'' = get m ''alwaysApply''"
  by (simp add: get_def normalizeGlobs_alwaysApply)

lemma normalizeMetadata_globs:
  "normalizeMetadata m ''globs'' =
    (case get m ''globs'' of
       VUndefined \<Rightarrow> Some (VArr [])
     | VNull \<Rightarrow> None
     | VStr g \<Rightarrow> Some (VArr (if trim g = [] then [] else [g]))
     | v \<Rightarrow> Some v)"
  by (simp add: normalizeMetadata_def removeNullish_def normalizeAlwaysApply_globs normalizeGlobs_globs
      split: jsval.splits)

lemma normalizeMetadata_alwaysApply:
  "normalizeMetadata m ''alwaysApply'' =
    (case get m ''alwaysApply'' of
       VUndefined \<Rightarrow> Some (VBool False)
     | VNull \<Rightarrow> None
     | VStr a \<Rightarrow> Some (VBool (toLowerCase a = ''true''))
     | v \<Rightarrow> Some v)"
  by (simp add: normalizeMetadata_def removeNullish_def normalizeAlwaysApply_alwaysApply
      get_normalizeGlobs_alwaysApply split: jsval.splits)

lemma normalizeMetadata_idem_guarded:
  assumes "get m ''globs'' \<noteq> VNull" and "get m ''alwaysApply'' \<noteq> VNull"
  shows "normalizeMetadata (normalizeMetadata m) = normalizeMetadata m"
proof (rule ext)
  fix k
  consider "k = ''globs''" | "k = ''alwaysApply''" | "k \<noteq> ''globs'' \<and> k \<noteq> ''alwaysApply''"
    by blast
  then show "normalizeMetadata (normalizeMetadata m) k = normalizeMetadata m k"
  proof cases
    case 1
    have "get (normalizeMetadata m) ''globs'' = (case normalizeMetadata m ''globs'' of None \<Rightarrow> VUndefined | Some v \<Rightarrow> v)"
      by (simp add: get_def)
    with assms(1) 1 show ?thesis
      by (simp add: normalizeMetadata_globs [of "normalizeMetadata m"] normalizeMetadata_globs [of m]
          split: jsval.splits)
  next
    case 2
    have "get (normalizeMetadata m) ''alwaysApply'' = (case normalizeMetadata m ''alwaysApply'' of None \<Rightarrow> VUndefined | Some v \<Rightarrow> v)"
      by (simp add: get_def)
    with assms(2) 2 show ?thesis
      by (simp add: normalizeMetadata_alwaysApply [of "normalizeMetadata m"] normalizeMetadata_alwaysApply [of m]
          split: jsval.splits)
  next
    case 3
    then show ?thesis
      by (simp add: normalizeMetadata_other split: option.splits)
  qed
qed

text \<open>
  Claim C9. The normalisation is not idempotent on the document whose metadata block is
  \<open>globs: null\<close>: the first run deletes the \<open>globs\<close> key, and a second run on the result
  puts the default empty sequence back, so that the result changes.
\<close>

theorem normalizeMetadata_null_globs_not_idempotent:
  "fst (parseWithNormalization nullGlobsFile) ''globs'' = None
   \<and> normalizeMetadata (fst (parseWithNormalization nullGlobsFile)) ''globs'' = Some (VArr [])
   \<and> normalizeMetadata (fst (parseWithNormalization nullGlobsFile))
       \<noteq> fst (parseWithNormalization nullGlobsFile)"
proof -
  let ?m = "fst (parseWithNormalization nullGlobsFile)"
  have m: "?m = normalizeMetadata [''globs'' \<mapsto> VNull]"
    by (simp add: parseWithNormalization_def parse_nullGlobsFile)
  have a: "?m ''globs'' = None"
    unfolding m by (simp add: normalizeMetadata_globs get_def)
  have b: "normalizeMetadata ?m ''globs'' = Some (VArr [])"
    using a by (simp add: normalizeMetadata_globs [of ?m] get_def)
  have c: "normalizeMetadata ?m \<noteq> ?m"
  proof
    assume "normalizeMetadata ?m = ?m"
    then have "normalizeMetadata ?m ''globs'' = ?m ''globs''" by simp
    with a b show False by simp
  qed
  from a b c show ?thesis by (intro conjI)
qed


section \<open>Properties of the value coercion\<close>

lemma startsWith_single: "startsWith v [c] \<longleftrightarrow> v \<noteq> [] \<and> hd v = c"
  by (cases v) (auto simp: startsWith_def)

lemma endsWith_single: "endsWith v [c] \<longleftrightarrow> v \<noteq> [] \<and> last v = c"
  by (cases v rule: rev_cases) (auto simp: endsWith_def)

lemma slice_inner: "slice v 1 (- 1) = butlast (tl v)"
proof (cases v)
  case Nil
  then show ?thesis by (simp add: slice_def)
next
  case (Cons a list)
  have "nat (int (length list) - 1) = length list - 1" by simp
  with Cons show ?thesis
    by (cases "list = []") (simp_all add: slice_def Let_def butlast_conv_take max_def min_def)
qed

lemma includes_single: "includes_str v [c] \<longleftrightarrow> c \<in> set v"
  by (induction v) (auto simp: includes_str_def sublist_Cons_right)

lemma indexOf_first:
  "c \<notin> set key \<Longrightarrow> indexOf (key @ c # rest) [c] = Some (length key)"
  by (induction key) auto


lemma digits_val_Nil: "digits_val [] = 0"
  by (simp add: digits_val_def)

lemma literal_value_digits:
  assumes "list_all is_digit body"
  shows "of_int (digits_val (takeWhile is_digit body))
           + of_int (digits_val (drop 1 (dropWhile is_digit body)))
               / 10 ^ length (drop 1 (dropWhile is_digit body))
         = (of_int (digits_val body) :: rat)"
proof -
  have a: "takeWhile is_digit body = body" and b: "dropWhile is_digit body = []"
    using assms by (simp_all add: list_all_iff)
  show ?thesis unfolding a b by (simp add: digits_val_Nil)
qed

lemma literal_value_int:
  assumes "int_shape v"
  shows "literal_value v = of_int (if prefix ''-'' v then - digits_val (drop 1 v) else digits_val v)"
proof (cases "prefix ''-'' v")
  case True
  with assms have "list_all is_digit (drop 1 v)" by (simp add: int_shape_def nonempty_digits_def)
  then show ?thesis using True literal_value_digits [of "drop 1 v"]
    by (simp add: literal_value_def Let_def)
next
  case False
  with assms have "list_all is_digit v" by (simp add: int_shape_def nonempty_digits_def)
  then show ?thesis using False literal_value_digits [of v]
    by (simp add: literal_value_def Let_def)
qed

lemma parseInt_literal_value: "int_shape v \<Longrightarrow> parseInt_literal v = toDouble (literal_value v)"
  by (simp add: parseInt_literal_def literal_value_int)

lemma assign_simps:
  "key \<noteq> ''__proto__'' \<Longrightarrow> assign key x (m, f) = (m(key \<mapsto> x), f)"
  "assign ''__proto__'' x (m, True) = (m, x \<noteq> VNull)"
  "assign ''__proto__'' x (m, False) = (m(''__proto__'' \<mapsto> x), False)"
  by (simp_all add: assign_def)

lemma parse_metadataBlockExample:
  "parseMetadata metadataBlockExample =
     ([''title'' \<mapsto> VStr ''Test'', ''published'' \<mapsto> VBool True, ''count'' \<mapsto> VNum 3], ''Body'')"
  by (simp add: metadataBlockExample_def js_eval)

lemma parse_protoBlockExample:
  "parseMetadataLines protoBlockExample = [''name'' \<mapsto> VStr ''rule'', ''__proto__'' \<mapsto> VStr ''y'']"
  by (simp add: protoBlockExample_def js_eval)

text \<open>
  Claim C6 (as the code has it). The coercion of a value tries, in this order: the empty
  text; a text in matching quotes, unwrapped; a boolean, whatever the case; \<open>null\<close>,
  whatever the case, or \<open>~\<close>; an integer; a float; a text with a comma and without the
  space character, split at the commas into trimmed pieces; otherwise the text itself. A
  numeric text gives the double nearest to the number it denotes, as long as that double
  is finite; an integer of magnitude below \<open>2 ^ 53\<close> is that integer exactly. A key followed
  by an empty value is assigned the empty string; an assignment binds the key, except that
  an assignment to \<open>__proto__\<close> binds nothing while the accessor of that name is in reach.
  The sample block parses to the metadata \<open>title: "Test"\<close>, \<open>published: true\<close>, \<open>count: 3\<close>
  and the body \<open>Body\<close>.
\<close>

theorem parseValue_coercion_order:
  "((int_shape v \<or> float_shape v \<longrightarrow> finite_double (literal_value v)) \<longrightarrow>
      parseValue v = coercion_in_order v)
   \<and> (int_shape v \<and> \<bar>literal_value v\<bar> < 2 ^ 53 \<longrightarrow>
        literal_value v \<in> \<int> \<and> toDouble (literal_value v) = literal_value v)
   \<and> (key \<noteq> [] \<and> CHR '':'' \<notin> set key \<and> trim key = key \<and> trim l = key @ '':''
        \<longrightarrow> parseMetadataLines_from (l # ls) st = parseMetadataLines_from ls (assign key (VStr []) st))
   \<and> (key \<noteq> ''__proto__'' \<longrightarrow> assign key x (m, f) = (m(key \<mapsto> x), f))
   \<and> assign ''__proto__'' x (m, True) = (m, x \<noteq> VNull)
   \<and> assign ''__proto__'' x (m, False) = (m(''__proto__'' \<mapsto> x), False)
   \<and> parseMetadata metadataBlockExample =
       ([''title'' \<mapsto> VStr ''Test'', ''published'' \<mapsto> VBool True, ''count'' \<mapsto> VNum 3], ''Body'')"
proof -
  have chain0: "parseValue v =
     (if v = [] then VStr []
      else if (hd v = DQUOTE \<and> last v = DQUOTE) \<or> (hd v = SQUOTE \<and> last v = SQUOTE)
      then VStr (butlast (tl v))
      else if toLowerCase v = ''true'' then VBool True
      else if toLowerCase v = ''false'' then VBool False
      else if toLowerCase v = ''null'' \<or> toLowerCase v = ''~'' then VNull
      else if int_shape v then VNum (parseInt_literal v)
      else if float_shape v then VNum (parseFloat_literal v)
      else if CHR '','' \<in> set v \<and> CHR '' '' \<notin> set v then VArr (map trim (split v (CHR '','')))
      else VStr v)"
    by (simp add: parseValue_def startsWith_single endsWith_single slice_inner includes_single
        re_test_integer_re re_test_float_re)
  have chain: "parseValue v = coercion_in_order v"
    unfolding chain0 coercion_in_order_def
    by (cases "int_shape v") (simp_all add: parseInt_literal_value parseFloat_literal_def)
  have exact: "int_shape v \<and> \<bar>literal_value v\<bar> < 2 ^ 53 \<longrightarrow>
        literal_value v \<in> \<int> \<and> toDouble (literal_value v) = literal_value v"
  proof
    assume a: "int_shape v \<and> \<bar>literal_value v\<bar> < 2 ^ 53"
    define n where "n = (if prefix ''-'' v then - digits_val (drop 1 v) else digits_val v)"
    have l: "literal_value v = of_int n" using a by (simp add: literal_value_int n_def)
    have "(of_int \<bar>n\<bar> :: rat) < of_int (2 ^ 53)" using a l by simp
    then have "\<bar>n\<bar> < 2 ^ 53" by (simp only: of_int_less_iff)
    then have "toDouble (of_int n) = of_int n" by (rule toDouble_int)
    with l show "literal_value v \<in> \<int> \<and> toDouble (literal_value v) = literal_value v" by simp
  qed
  have line: "key \<noteq> [] \<and> CHR '':'' \<notin> set key \<and> trim key = key \<and> trim l = key @ '':''
      \<longrightarrow> parseMetadataLines_from (l # ls) st = parseMetadataLines_from ls (assign key (VStr []) st)"
  proof
    assume a: "key \<noteq> [] \<and> CHR '':'' \<notin> set key \<and> trim key = key \<and> trim l = key @ '':''"
    then have i: "indexOf (key @ '':'') '':'' = Some (length key)"
      using indexOf_first [of "CHR '':''" key "[]"] by simp
    have t: "trim [] = []" by (simp add: trim_def)
    from a show "parseMetadataLines_from (l # ls) st = parseMetadataLines_from ls (assign key (VStr []) st)"
      by (simp add: i t Let_def)
  qed
  have own: "key \<noteq> ''__proto__'' \<longrightarrow> assign key x (m, f) = (m(key \<mapsto> x), f)"
    by (simp add: assign_simps)
  from chain have chain': "(int_shape v \<or> float_shape v \<longrightarrow> finite_double (literal_value v)) \<longrightarrow>
      parseValue v = coercion_in_order v" by simp
  from chain' exact line own assign_simps(2) [of x m] assign_simps(3) [of x m] parse_metadataBlockExample
  show ?thesis by (intro conjI)
qed

theorem parseValue_coercion_order_witness:
  "parseValue ([DQUOTE] @ ''true'' @ [DQUOTE]) = VStr ''true''
   \<and> parseValue ''TRUE'' = VBool True
   \<and> parseValue ''~'' = VNull
   \<and> finite_double (literal_value ''-12'')
   \<and> parseValue ''-12'' = VNum (- 12)
   \<and> finite_double (literal_value ''1.5'')
   \<and> parseValue ''1.5'' = VNum (3 / 2)
   \<and> finite_double (literal_value ''0.1'')
   \<and> parseValue ''0.1'' = VNum (3602879701896397 / 36028797018963968)
   \<and> finite_double (literal_value ''9007199254740993'')
   \<and> parseValue ''9007199254740993'' = VNum 9007199254740992
   \<and> parseValue ''a,b'' = VArr [''a'', ''b'']
   \<and> parseValue ''a, b'' = VStr ''a, b''
   \<and> int_shape ''42'' \<and> \<bar>literal_value ''42''\<bar> < 2 ^ 53
   \<and> toDouble (literal_value ''42'') = literal_value ''42'' \<and> literal_value ''42'' = 42
   \<and> ''description'' \<noteq> [] \<and> CHR '':'' \<notin> set ''description'' \<and> trim ''description'' = ''description''
   \<and> trim ''description: '' = ''description'' @ '':''
   \<and> parseMetadataLines_from [''description: ''] (Map.empty, True)
       = parseMetadataLines_from [] (assign ''description'' (VStr []) (Map.empty, True))
   \<and> ''description'' \<noteq> ''__proto__''
   \<and> assign ''description'' (VStr []) (Map.empty, True) = ([''description'' \<mapsto> VStr []], True)
   \<and> parseMetadataLines protoBlockExample = [''name'' \<mapsto> VStr ''rule'', ''__proto__'' \<mapsto> VStr ''y'']
   \<and> parseMetadata metadataBlockExample =
       ([''title'' \<mapsto> VStr ''Test'', ''published'' \<mapsto> VBool True, ''count'' \<mapsto> VNum 3], ''Body'')"
proof -
  have h: "''description'' \<noteq> [] \<and> CHR '':'' \<notin> set ''description''
      \<and> trim ''description'' = ''description'' \<and> trim ''description: '' = ''description'' @ '':''"
    by (simp add: trim_def is_space_def)
  have n1: "\<not> (int_shape ([DQUOTE] @ ''true'' @ [DQUOTE]) \<or> float_shape ([DQUOTE] @ ''true'' @ [DQUOTE]))"
    by code_simp
  have n2: "\<not> (int_shape ''TRUE'' \<or> float_shape ''TRUE'')" by code_simp
  have n3: "\<not> (int_shape ''~'' \<or> float_shape ''~'')" by code_simp
  have n6: "\<not> (int_shape ''a,b'' \<or> float_shape ''a,b'')" by code_simp
  have n7: "\<not> (int_shape ''a, b'' \<or> float_shape ''a, b'')" by code_simp
  have f4: "finite_double (literal_value ''-12'')" by code_simp
  have f5: "finite_double (literal_value ''1.5'')" by code_simp
  have f8: "finite_double (literal_value ''0.1'')" by code_simp
  have f9: "finite_double (literal_value ''9007199254740993'')" by code_simp
  have e1: "coercion_in_order ([DQUOTE] @ ''true'' @ [DQUOTE]) = VStr ''true''" by code_simp
  have e2: "coercion_in_order ''TRUE'' = VBool True" by code_simp
  have e3: "coercion_in_order ''~'' = VNull" by code_simp
  have e4: "coercion_in_order ''-12'' = VNum (- 12)" by code_simp
  have e5: "coercion_in_order ''1.5'' = VNum (3 / 2)" by code_simp
  have e6: "coercion_in_order ''a,b'' = VArr [''a'', ''b'']" by code_simp
  have e7: "coercion_in_order ''a, b'' = VStr ''a, b''" by code_simp
  have e8: "coercion_in_order ''0.1'' = VNum (3602879701896397 / 36028797018963968)" by code_simp
  have e9: "coercion_in_order ''9007199254740993'' = VNum 9007199254740992" by code_simp
  have v1: "parseValue ([DQUOTE] @ ''true'' @ [DQUOTE]) = VStr ''true''"
    using parseValue_coercion_order [THEN conjunct1, of "[DQUOTE] @ ''true'' @ [DQUOTE]"] n1 e1 by simp
  have v2: "parseValue ''TRUE'' = VBool True"
    using parseValue_coercion_order [THEN conjunct1, of "''TRUE''"] n2 e2 by simp
  have v3: "parseValue ''~'' = VNull"
    using parseValue_coercion_order [THEN conjunct1, of "''~''"] n3 e3 by simp
  have v4: "parseValue ''-12'' = VNum (- 12)"
    using parseValue_coercion_order [THEN conjunct1, of "''-12''"] f4 e4 by simp
  have v5: "parseValue ''1.5'' = VNum (3 / 2)"
    using parseValue_coercion_order [THEN conjunct1, of "''1.5''"] f5 e5 by simp
  have v6: "parseValue ''a,b'' = VArr [''a'', ''b'']"
    using parseValue_coercion_order [THEN conjunct1, of "''a,b''"] n6 e6 by simp
  have v7: "parseValue ''a, b'' = VStr ''a, b''"
    using parseValue_coercion_order [THEN conjunct1, of "''a, b''"] n7 e7 by simp
  have v8: "parseValue ''0.1'' = VNum (3602879701896397 / 36028797018963968)"
    using parseValue_coercion_order [THEN conjunct1, of "''0.1''"] f8 e8 by simp
  have v9: "parseValue ''9007199254740993'' = VNum 9007199254740992"
    using parseValue_coercion_order [THEN conjunct1, of "''9007199254740993''"] f9 e9 by simp
  have i1: "int_shape ''42'' \<and> \<bar>literal_value ''42''\<bar> < 2 ^ 53" by code_simp
  have i2: "toDouble (literal_value ''42'') = literal_value ''42''"
    using parseValue_coercion_order [of "''42''"] i1 by blast
  have i3: "literal_value ''42'' = 42" by code_simp
  note spec = parseValue_coercion_order
      [of "[]" "''description''" "''description: ''" "[]" "(Map.empty, True)" "VStr []" Map.empty True]
  have c: "parseMetadataLines_from [''description: ''] (Map.empty, True)
       = parseMetadataLines_from [] (assign ''description'' (VStr []) (Map.empty, True))"
    using spec h by blast
  have k: "''description'' \<noteq> ''__proto__''" by simp
  have a: "assign ''description'' (VStr []) (Map.empty, True) = ([''description'' \<mapsto> VStr []], True)"
    using spec k by blast
  have b: "parseMetadata metadataBlockExample =
       ([''title'' \<mapsto> VStr ''Test'', ''published'' \<mapsto> VBool True, ''count'' \<mapsto> VNum 3], ''Body'')"
    using spec by blast
  from v1 v2 v3 f4 v4 f5 v5 f8 v8 f9 v9 v6 v7 i1 i2 i3 h c k a parse_protoBlockExample b show ?thesis
    by (intro conjI) simp_all
qed

text \<open>
  The claim as the specification words it fails: a value with a comma and a tab, which is
  white space, is split all the same.
\<close>

theorem parseValue_tab_counterexample:
  "is_space (CHR 0x09) \<and> CHR 0x09 \<in> set (''a,'' @ [CHR 0x09] @ ''b'')
   \<and> parseValue (''a,'' @ [CHR 0x09] @ ''b'') = VArr [''a'', ''b'']
   \<and> parseValue (''a,'' @ [CHR 0x09] @ ''b'') \<noteq> VStr (''a,'' @ [CHR 0x09] @ ''b'')"
  by code_simp

section \<open>Properties of the link resolver\<close>

lemma targetFilePath_scheme:
  "targetFilePath config (''mdc:'' @ sourceDir config @ ''/'' @ p) = p"
  by (simp add: targetFilePath_def startsWith_def Let_def)

lemma targetFilePath_scheme_dot:
  assumes "\<not> prefix (sourceDir config @ ''/'') (''./'' @ sourceDir config @ ''/'' @ p)"
  shows "targetFilePath config (''mdc:./'' @ sourceDir config @ ''/'' @ p) = p"
  using assms by (simp add: targetFilePath_def startsWith_def Let_def)

lemma targetFilePath_scheme_plain:
  assumes "\<not> prefix (sourceDir config @ ''/'') p" and "\<not> prefix (''./'' @ sourceDir config @ ''/'') p"
  shows "targetFilePath config (''mdc:'' @ p) = p"
  using assms by (simp add: targetFilePath_def startsWith_def Let_def)

lemma targetFilePath_legacy:
  "targetFilePath config (''.cursor/rules/'' @ p) = p"
  "targetFilePath config (''./.cursor/rules/'' @ p) = p"
  by (simp_all add: targetFilePath_def startsWith_def includes_str_def sublist_Cons_right)

lemma targetFilePath_relative:
  "\<not> sublist ''.cursor/rules/'' (''./'' @ p) \<Longrightarrow> targetFilePath config (''./'' @ p) = p"
  by (simp add: targetFilePath_def startsWith_def includes_str_def)

lemma resolveSingleLink_of_target:
  assumes "targetFilePath config link = p"
  shows "isValid (resolveSingleLink config files link) = known files p
     \<and> resolved (resolveSingleLink config files link)
         = path_join [crossReferenceBase config, normalizeSeparators (stripMdc p)]
     \<and> original (resolveSingleLink config files link) = link"
  using assms
  by (auto simp: resolveSingleLink_def validateTargetExists_def known_def has_def keys_def Let_def)

text \<open>
  Claim C2 as worded fails for a source directory other than \<open>.cursor/rules\<close>. With the
  source directory \<open>docs/rules\<close> and \<open>x.mdc\<close> in the index, the reference
  \<open>./docs/rules/x.mdc\<close>, whose path relative to the source directory is \<open>x.mdc\<close>, is not
  valid and resolves to \<open>/rules/docs/rules/x\<close>: outside the \<open>mdc:\<close> scheme only the literal
  segment \<open>.cursor/rules/\<close> is stripped. The same path under the scheme is valid.
\<close>

theorem resolveSingleLink_source_root_counterexample:
  "sourceDir docsConfig = ''docs/rules''
   \<and> known (setDiscoveredFiles [sampleRule ''x.mdc'']) ''x.mdc''
   \<and> resolveSingleLink docsConfig (setDiscoveredFiles [sampleRule ''x.mdc'']) ''./docs/rules/x.mdc''
       = \<lparr>original = ''./docs/rules/x.mdc'', resolved = ''/rules/docs/rules/x'', isValid = False\<rparr>
   \<and> resolveSingleLink docsConfig (setDiscoveredFiles [sampleRule ''x.mdc'']) ''mdc:docs/rules/x.mdc''
       = \<lparr>original = ''mdc:docs/rules/x.mdc'', resolved = ''/rules/x'', isValid = True\<rparr>"
  by code_simp

text \<open>
  Claim C2 (as the code has it). The relative path \<open>p\<close> of a reference is what follows the
  scheme \<open>mdc:\<close> and the configured source directory, with or without \<open>./\<close> before the
  directory, or the scheme alone when the directory does not follow it; what follows the
  literal segment \<open>.cursor/rules/\<close>, with or without \<open>./\<close> before it, whatever the
  configured source directory; and what follows \<open>./\<close> in a reference without that
  segment. For each of these forms the cross-reference is valid exactly when \<open>p\<close> is known,
  as it stands, without a leading \<open>./\<close>, or without it and with its separators normalised;
  its target is the base path joined with \<open>p\<close> without its \<open>.mdc\<close> extension, separators
  normalised; and its original text is the reference.
\<close>

theorem resolveSingleLink_valid_target:
  "(link = ''mdc:'' @ sourceDir config @ ''/'' @ p
      \<or> (link = ''mdc:./'' @ sourceDir config @ ''/'' @ p
          \<and> \<not> prefix (sourceDir config @ ''/'') (''./'' @ sourceDir config @ ''/'' @ p))
      \<or> (link = ''mdc:'' @ p \<and> \<not> prefix (sourceDir config @ ''/'') p
          \<and> \<not> prefix (''./'' @ sourceDir config @ ''/'') p)
      \<or> link = ''.cursor/rules/'' @ p
      \<or> link = ''./.cursor/rules/'' @ p
      \<or> (link = ''./'' @ p \<and> \<not> sublist ''.cursor/rules/'' (''./'' @ p)))
   \<longrightarrow> isValid (resolveSingleLink config files link) = known files p
       \<and> resolved (resolveSingleLink config files link)
           = path_join [crossReferenceBase config, normalizeSeparators (stripMdc p)]
       \<and> original (resolveSingleLink config files link) = link"
proof
  assume a: "link = ''mdc:'' @ sourceDir config @ ''/'' @ p
      \<or> (link = ''mdc:./'' @ sourceDir config @ ''/'' @ p
          \<and> \<not> prefix (sourceDir config @ ''/'') (''./'' @ sourceDir config @ ''/'' @ p))
      \<or> (link = ''mdc:'' @ p \<and> \<not> prefix (sourceDir config @ ''/'') p
          \<and> \<not> prefix (''./'' @ sourceDir config @ ''/'') p)
      \<or> link = ''.cursor/rules/'' @ p
      \<or> link = ''./.cursor/rules/'' @ p
      \<or> (link = ''./'' @ p \<and> \<not> sublist ''.cursor/rules/'' (''./'' @ p))"
  have "targetFilePath config link = p"
    using a targetFilePath_scheme [of config p] targetFilePath_scheme_dot [of config p]
      targetFilePath_scheme_plain [of config p] targetFilePath_legacy [of config p]
      targetFilePath_relative [of p config]
    by (elim disjE conjE) simp_all
  then show "isValid (resolveSingleLink config files link) = known files p
       \<and> resolved (resolveSingleLink config files link)
           = path_join [crossReferenceBase config, normalizeSeparators (stripMdc p)]
       \<and> original (resolveSingleLink config files link) = link"
    by (rule resolveSingleLink_of_target)
qed

theorem resolveSingleLink_valid_target_witness:
  "\<not> sublist ''.cursor/rules/'' (''./'' @ ''main.mdc'')
   \<and> known (setDiscoveredFiles [sampleRule ''main.mdc'']) ''main.mdc''
   \<and> isValid (resolveSingleLink sampleConfig (setDiscoveredFiles [sampleRule ''main.mdc'']) ''./main.mdc'')
   \<and> resolved (resolveSingleLink sampleConfig (setDiscoveredFiles [sampleRule ''main.mdc'']) ''./main.mdc'')
       = ''/rules/main''
   \<and> \<not> known (setDiscoveredFiles [sampleRule ''main.mdc'']) ''missing.mdc''
   \<and> \<not> isValid (resolveSingleLink sampleConfig (setDiscoveredFiles [sampleRule ''main.mdc''])
           ''./missing.mdc'')
   \<and> known (setDiscoveredFiles [sampleRule ''modes/init.mdc'']) ''modes/init.mdc''
   \<and> isValid (resolveSingleLink sampleConfig (setDiscoveredFiles [sampleRule ''modes/init.mdc''])
         ''mdc:.cursor/rules/modes/init.mdc'')
   \<and> resolved (resolveSingleLink sampleConfig (setDiscoveredFiles [sampleRule ''modes/init.mdc''])
         ''mdc:.cursor/rules/modes/init.mdc'') = ''/rules/modes/init''
   \<and> isValid (resolveSingleLink sampleConfig (setDiscoveredFiles [sampleRule ''modes/init.mdc''])
         ''./.cursor/rules/modes/init.mdc'')"
proof -
  let ?files = "setDiscoveredFiles [sampleRule ''main.mdc'']"
  let ?init = "setDiscoveredFiles [sampleRule ''modes/init.mdc'']"
  have h0: "\<not> sublist ''.cursor/rules/'' (''./'' @ ''main.mdc'')" by code_simp
  have h0': "\<not> sublist ''.cursor/rules/'' (''./'' @ ''missing.mdc'')" by code_simp
  have k1: "known ?files ''main.mdc''" by code_simp
  have k2: "\<not> known ?files ''missing.mdc''" by code_simp
  have k3: "known ?init ''modes/init.mdc''" by code_simp
  have j1: "path_join [crossReferenceBase sampleConfig, normalizeSeparators (stripMdc ''main.mdc'')]
      = ''/rules/main''" by code_simp
  have j3: "path_join [crossReferenceBase sampleConfig, normalizeSeparators (stripMdc ''modes/init.mdc'')]
      = ''/rules/modes/init''" by code_simp
  have sd: "sourceDir sampleConfig = ''.cursor/rules''" by (simp add: sampleConfig_def)
  have c1: "isValid (resolveSingleLink sampleConfig ?files ''./main.mdc'')"
    using resolveSingleLink_valid_target [of "''./main.mdc''" sampleConfig "''main.mdc''" ?files] h0 k1
    by simp
  have c2: "resolved (resolveSingleLink sampleConfig ?files ''./main.mdc'') = ''/rules/main''"
    using resolveSingleLink_valid_target [of "''./main.mdc''" sampleConfig "''main.mdc''" ?files] h0 j1
    by simp
  have c3: "\<not> isValid (resolveSingleLink sampleConfig ?files ''./missing.mdc'')"
    using resolveSingleLink_valid_target [of "''./missing.mdc''" sampleConfig "''missing.mdc''" ?files]
      h0' k2
    by simp
  have c4: "isValid (resolveSingleLink sampleConfig ?init ''mdc:.cursor/rules/modes/init.mdc'')"
    using resolveSingleLink_valid_target
        [of "''mdc:.cursor/rules/modes/init.mdc''" sampleConfig "''modes/init.mdc''" ?init] k3 sd
    by simp
  have c5: "resolved (resolveSingleLink sampleConfig ?init ''mdc:.cursor/rules/modes/init.mdc'')
      = ''/rules/modes/init''"
    using resolveSingleLink_valid_target
        [of "''mdc:.cursor/rules/modes/init.mdc''" sampleConfig "''modes/init.mdc''" ?init] j3 sd
    by simp
  have c6: "isValid (resolveSingleLink sampleConfig ?init ''./.cursor/rules/modes/init.mdc'')"
    using resolveSingleLink_valid_target
        [of "''./.cursor/rules/modes/init.mdc''" sampleConfig "''modes/init.mdc''" ?init] k3
    by simp
  from h0 k1 c1 c2 k2 c3 k3 c4 c5 c6 show ?thesis by (intro conjI)
qed

lemma keys_map_set:
  "keys (map_set k v files) = (if k \<in> set (keys files) then keys files else keys files @ [k])"
  by (induction files) (auto simp: keys_def)

lemma normalizeSeparators_plain: "BACKSLASH \<notin> set p \<Longrightarrow> normalizeSeparators p = p"
  by (auto simp: normalizeSeparators_def intro!: map_idI)

lemma keys_fold_plain:
  assumes "distinct (map filePath rules)" and "\<forall>r \<in> set rules. BACKSLASH \<notin> set (filePath r)"
  shows "keys (foldl (\<lambda>files c. map_set (normalizeSeparators (filePath c)) c (map_set (filePath c) c files))
                 acc rules)
     = keys acc @ filter (\<lambda>p. p \<notin> set (keys acc)) (map filePath rules)"
  using assms
proof (induction rules arbitrary: acc)
  case Nil
  then show ?case by simp
next
  case (Cons r rules)
  let ?p = "filePath r"
  let ?acc = "map_set (normalizeSeparators ?p) r (map_set ?p r acc)"
  have plain: "normalizeSeparators ?p = ?p"
    using Cons.prems(2) by (simp add: normalizeSeparators_plain)
  have k: "keys ?acc = (if ?p \<in> set (keys acc) then keys acc else keys acc @ [?p])"
    by (simp add: plain keys_map_set)
  have notin: "?p \<notin> set (map filePath rules)" using Cons.prems(1) by simp
  have ih: "keys (foldl (\<lambda>files c. map_set (normalizeSeparators (filePath c)) c (map_set (filePath c) c files))
                 ?acc rules)
     = keys ?acc @ filter (\<lambda>p. p \<notin> set (keys ?acc)) (map filePath rules)"
    using Cons.prems by (intro Cons.IH) simp_all
  have f: "filter (\<lambda>p. p \<notin> set (keys acc) \<and> p \<noteq> ?p) (map filePath rules)
      = filter (\<lambda>p. p \<notin> set (keys acc)) (map filePath rules)"
    using notin by (intro filter_cong) (auto simp: image_iff)
  show ?case
  proof (cases "?p \<in> set (keys acc)")
    case True
    with ih k show ?thesis by simp
  next
    case False
    with ih k f show ?thesis by (simp add: conj_commute)
  qed
qed

lemma availableFiles_of_rules:
  assumes "distinct (map filePath rules)"
    and "\<forall>r \<in> set rules. BACKSLASH \<notin> set (filePath r) \<and> endsWith (filePath r) ''.mdc''"
  shows "availableFiles (setDiscoveredFiles rules) = sort (map (\<lambda>r. ''./'' @ filePath r) rules)"
proof -
  have "keys (setDiscoveredFiles rules) = map filePath rules"
    using keys_fold_plain [of rules "[]"] assms by (simp add: setDiscoveredFiles_def keys_def)
  moreover have "filter (\<lambda>p. endsWith p ''.mdc'') (map filePath rules) = map filePath rules"
    using assms(2) by (simp add: filter_id_conv)
  ultimately show ?thesis by (simp add: availableFiles_def o_def)
qed

lemma generateWarnings_fold:
  "foldl (\<lambda>warnings ref. if \<not> isValid ref then warnings @ [f ref] else warnings) acc refs
     = acc @ map f (filter (\<lambda>r. \<not> isValid r) refs)"
  by (induction refs arbitrary: acc) simp_all

lemma generateWarnings_map:
  "generateWarnings files refs src = map (warningMessage files src) (filter (\<lambda>r. \<not> isValid r) refs)"
  by (simp add: generateWarnings_def generateWarnings_fold)

lemma slice_take5: "slice xs 0 5 = take 5 xs" and slice_take3: "slice xs 0 3 = take 3 xs"
  by (simp_all add: slice_def Let_def min_def)

lemma findSimilarFiles_take:
  "findSimilarFiles link av = take 3 (filter (similar_basename link) av)"
  by (simp add: findSimilarFiles_def Let_def slice_take3 similar_basename_def [abs_def]
      basename_key_def includes_str_def)

lemma warningMessage_shape:
  "warningMessage files src ref =
     ''Broken cross-reference in '' @ src @ '': '' @ original ref
       @ (if take 3 (filter (similar_basename (original ref)) (availableFiles files)) = [] then []
          else [NEWLINE] @ ''  Suggestions: ''
               @ join (take 3 (filter (similar_basename (original ref)) (availableFiles files))) '', '')
       @ [NEWLINE] @ ''  Available files: '' @ join (take 5 (availableFiles files)) '', ''
       @ (if 5 < length (availableFiles files)
          then '' (and '' @ show_nat (length (availableFiles files) - 5) @ '' more)'' else [])"
  by (simp add: warningMessage_def Let_def slice_take5 findSimilarFiles_take)

lemma take_filter_nonempty: "\<exists>x \<in> set xs. P x \<Longrightarrow> take 3 (filter P xs) \<noteq> []"
  by (auto simp: filter_empty_conv)



section \<open>Properties of the title extraction\<close>

lemma star_then_eol:
  assumes "list_all any_char xs" and "is_line_terminator y"
  shows "concat (map (ms (Eol True)) (map (set_capture n b0) (star_states any_char bef (xs @ y # ys) caps)))
     = [(rev xs @ bef, y # ys,
         caps(n \<mapsto> rev (take (length (rev xs @ bef) - length b0) (rev xs @ bef))))]"
  using assms
proof (induction xs arbitrary: bef)
  case Nil
  then show ?case by (auto simp: set_capture_def any_char_def fun_eq_iff)
next
  case (Cons x xs)
  then show ?case by (auto simp: set_capture_def any_char_def fun_eq_iff)
qed

lemma firstHeading_first_line:
  assumes "t \<noteq> []" and "list_all any_char t" and "\<not> is_space (hd t)"
  shows "firstHeading (''# '' @ t @ NEWLINE # rest) = Some (trim t)"
proof -
  obtain c t' where t: "t = c # t'" using assms(1) by (cases t) auto
  have c: "any_char c" "\<not> is_space c" and t': "list_all any_char t'"
    using assms(2,3) by (simp_all add: t)
  have nl: "is_line_terminator NEWLINE" by (simp add: is_line_terminator_def)
  let ?b = "[c, CHR '' '', CHR ''#'']"
  have grp: "concat (map (ms (Eol True))
        (map (set_capture 1 [CHR '' '', CHR ''#''])
           (star_states any_char ?b (t' @ NEWLINE # rest) no_captures)))
      = [(rev t' @ ?b, NEWLINE # rest,
          no_captures(1 \<mapsto> rev (take (length (rev t' @ ?b) - length [CHR '' '', CHR ''#'']) (rev t' @ ?b))))]"
    by (rule star_then_eol [OF t' nl])
  have sp: "is_space (CHR '' '')" by (simp add: is_space_def)
  have "ms heading_re ([], ''# '' @ t @ NEWLINE # rest, no_captures)
      = [(rev t' @ ?b, NEWLINE # rest, no_captures(1 \<mapsto> t))]"
    using c sp grp
    by (simp add: heading_re_def Plus_def ms_Lit ms_Rep_Atom t del: ms.simps(5))
  then show ?thesis
    by (simp add: firstHeading_def re_match_def mk_match_def t del: ms.simps)
qed

text \<open>
  Claim C4 as worded fails: a metadata title that is present but is not a string is not
  used. The document whose block is \<open>title: 2024\<close> has the number 2024 as its title value,
  and its extracted title is the text of its first heading.
\<close>

theorem extractTitle_numeric_title_counterexample:
  "fst (parseWithNormalization numericTitleFile) ''title'' = Some (VNum 2024)
   \<and> extractTitle (fst (parseWithNormalization numericTitleFile))
        (snd (parseWithNormalization numericTitleFile)) ''notes.mdc'' = ''Heading''"
  by code_simp

text \<open>
  Claim C4 (as the code has it). The title is chosen by strict priority: the metadata
  title when it is a non-empty string, verbatim; else the metadata description when it is
  a non-empty string; else the trimmed text of the first match of the line-anchored
  heading pattern in the body; else the base name of the file with \<open>-\<close> and \<open>_\<close> replaced
  by spaces and the first letter of each word in upper case. In particular a body whose
  first line is \<open>#\<close>, a space and a text gives that text, trimmed.
\<close>

theorem extractTitle_priority:
  "(get m ''title'' = VStr t \<and> t \<noteq> [] \<longrightarrow> extractTitle m body p = t)
   \<and> (\<not> (truthy (get m ''title'') \<and> is_string (get m ''title''))
        \<and> get m ''description'' = VStr d \<and> d \<noteq> [] \<longrightarrow> extractTitle m body p = d)
   \<and> (\<not> (truthy (get m ''title'') \<and> is_string (get m ''title''))
        \<and> \<not> (truthy (get m ''description'') \<and> is_string (get m ''description''))
        \<and> firstHeading body = Some h
        \<longrightarrow> extractTitle m body p = h)
   \<and> (\<not> (truthy (get m ''title'') \<and> is_string (get m ''title''))
        \<and> \<not> (truthy (get m ''description'') \<and> is_string (get m ''description''))
        \<and> firstHeading body = None
        \<longrightarrow> extractTitle m body p =
            capitalizeWords False
              (map (\<lambda>c. if c = CHR ''-'' \<or> c = CHR ''_'' then CHR '' '' else c)
                 (path_basename p ''.mdc'')))
   \<and> (\<not> (truthy (get m ''title'') \<and> is_string (get m ''title''))
        \<and> \<not> (truthy (get m ''description'') \<and> is_string (get m ''description''))
        \<and> line \<noteq> [] \<and> list_all any_char line \<and> \<not> is_space (hd line)
        \<longrightarrow> extractTitle m (''# '' @ line @ NEWLINE # rest) p = trim line)"
  by (simp add: extractTitle_def Let_def firstHeading_first_line [simplified])

theorem extractTitle_priority_witness:
  "get [''title'' \<mapsto> VStr ''Metadata Title''] ''title'' = VStr ''Metadata Title''
   \<and> extractTitle [''title'' \<mapsto> VStr ''Metadata Title''] headingBodyExample ''test.mdc''
       = ''Metadata Title''
   \<and> get [''title'' \<mapsto> VNum 123, ''description'' \<mapsto> VStr ''Description Title''] ''description''
       = VStr ''Description Title''
   \<and> extractTitle [''title'' \<mapsto> VNum 123, ''description'' \<mapsto> VStr ''Description Title'']
        headingBodyExample ''test.mdc'' = ''Description Title''
   \<and> firstHeading headingBodyExample = Some ''First''
   \<and> extractTitle [''title'' \<mapsto> VNum 123, ''description'' \<mapsto> VBool False]
        headingBodyExample ''test.mdc'' = ''First''
   \<and> extractTitle Map.empty (''# '' @ ''Heading Title'' @ NEWLINE # ''Content'') ''test.mdc''
       = trim ''Heading Title''
   \<and> firstHeading ''Content without heading'' = None
   \<and> extractTitle Map.empty ''Content without heading'' ''my-rule-file.mdc''
       = capitalizeWords False
           (map (\<lambda>c. if c = CHR ''-'' \<or> c = CHR ''_'' then CHR '' '' else c)
              (path_basename ''my-rule-file.mdc'' ''.mdc''))
   \<and> capitalizeWords False
         (map (\<lambda>c. if c = CHR ''-'' \<or> c = CHR ''_'' then CHR '' '' else c)
            (path_basename ''my-rule-file.mdc'' ''.mdc'')) = ''My Rule File''"
proof -
  let ?m1 = "[''title'' \<mapsto> VStr ''Metadata Title'']"
  let ?m2 = "[''title'' \<mapsto> VNum 123, ''description'' \<mapsto> VStr ''Description Title'']"
  let ?m3 = "[''title'' \<mapsto> VNum 123, ''description'' \<mapsto> VBool False]"
  have h1: "get ?m1 ''title'' = VStr ''Metadata Title''" by (simp add: get_def)
  have c1: "extractTitle ?m1 headingBodyExample ''test.mdc'' = ''Metadata Title''"
    using extractTitle_priority [of ?m1 "''Metadata Title''" headingBodyExample "''test.mdc''"] h1
    by simp
  have h2: "get ?m2 ''description'' = VStr ''Description Title''" by (simp add: get_def)
  have n2: "\<not> (truthy (get ?m2 ''title'') \<and> is_string (get ?m2 ''title''))" by (simp add: get_def)
  have c2: "extractTitle ?m2 headingBodyExample ''test.mdc'' = ''Description Title''"
    using extractTitle_priority [of ?m2 _ headingBodyExample "''test.mdc''" "''Description Title''"] h2 n2
    by simp
  have h3: "firstHeading headingBodyExample = Some ''First''" by code_simp
  have n3: "\<not> (truthy (get ?m3 ''title'') \<and> is_string (get ?m3 ''title''))"
    "\<not> (truthy (get ?m3 ''description'') \<and> is_string (get ?m3 ''description''))"
    by (simp_all add: get_def)
  have c3: "extractTitle ?m3 headingBodyExample ''test.mdc'' = ''First''"
    using extractTitle_priority [of ?m3 _ headingBodyExample "''test.mdc''" _ "''First''"] h3 n3
    by simp
  have h5: "''Heading Title'' \<noteq> [] \<and> list_all any_char ''Heading Title''
      \<and> \<not> is_space (hd ''Heading Title'')"
    by (simp add: any_char_def is_line_terminator_def is_space_def)
  have n5: "\<not> (truthy (get Map.empty ''title'') \<and> is_string (get Map.empty ''title''))"
    "\<not> (truthy (get Map.empty ''description'') \<and> is_string (get Map.empty ''description''))"
    by (simp_all add: get_def)
  have c5: "extractTitle Map.empty (''# '' @ ''Heading Title'' @ NEWLINE # ''Content'') ''test.mdc''
       = trim ''Heading Title''"
    using extractTitle_priority [of Map.empty _ _ "''test.mdc''" _ _ "''Heading Title''" "''Content''"]
      h5 n5
    by blast
  have h4: "firstHeading ''Content without heading'' = None" by code_simp
  have n4: "\<not> (truthy (get Map.empty ''title'') \<and> is_string (get Map.empty ''title''))"
    "\<not> (truthy (get Map.empty ''description'') \<and> is_string (get Map.empty ''description''))"
    by (simp_all add: get_def)
  have c4: "extractTitle Map.empty ''Content without heading'' ''my-rule-file.mdc''
       = capitalizeWords False
           (map (\<lambda>c. if c = CHR ''-'' \<or> c = CHR ''_'' then CHR '' '' else c)
              (path_basename ''my-rule-file.mdc'' ''.mdc''))"
    using extractTitle_priority [of Map.empty _ "''Content without heading''" "''my-rule-file.mdc''"] h4 n4
    by simp
  have v4: "capitalizeWords False
         (map (\<lambda>c. if c = CHR ''-'' \<or> c = CHR ''_'' then CHR '' '' else c)
            (path_basename ''my-rule-file.mdc'' ''.mdc'')) = ''My Rule File''"
    by code_simp
  from h1 c1 h2 c2 h3 c3 c5 h4 c4 v4 show ?thesis by (intro conjI)
qed

section \<open>Properties of the pipeline\<close>

lemma processFile_never_rejects:
  "processFile env config file srcDir =
     Inr (case processFile_try env config file srcDir of Inl err \<Rightarrow> None | Inr rule \<Rightarrow> Some rule)"
  by (simp add: processFile_def split: sum.splits)

lemma processFile_try_throws:
  "isl (processFile_try env config file srcDir)
     \<longleftrightarrow> isl (readFileSync env file) \<or> isl (statSync_mtime env file)"
  by (simp add: processFile_try_def Let_def split: sum.splits)

lemma processFile_try_filePath:
  "processFile_try env config file srcDir = Inr rule \<Longrightarrow> filePath rule = path_relative env srcDir file"
  by (auto simp: processFile_try_def Let_def split: sum.splits)

lemma firstPass_errors:
  "snd (firstPass pf files st) =
     snd st @ concat (map (\<lambda>file. case pf file of
                                    Inl errorMessage \<Rightarrow> [''Error processing file '' @ file @ '': '' @ errorMessage]
                                  | Inr r \<Rightarrow> []) files)"
  by (induction files arbitrary: st) (simp_all split: sum.splits option.splits)

lemma firstPass_content:
  "fst (firstPass pf files st) =
     fst st @ concat (map (\<lambda>file. case pf file of Inr (Some rule) \<Rightarrow> [rule] | _ \<Rightarrow> []) files)"
  by (induction files arbitrary: st) (simp_all split: sum.splits option.splits)

lemma firstPass_processFile_paths:
  "map filePath (concat (map (\<lambda>file. case processFile env config file srcDir of
                                        Inr (Some rule) \<Rightarrow> [rule] | _ \<Rightarrow> []) files))
     = map (path_relative env srcDir)
         (filter (\<lambda>file. \<not> isl (readFileSync env file) \<and> \<not> isl (statSync_mtime env file)) files)"
proof (induction files)
  case Nil
  then show ?case by simp
next
  case (Cons f files)
  show ?case
  proof (cases "processFile_try env config f srcDir")
    case (Inl err)
    then have "isl (readFileSync env f) \<or> isl (statSync_mtime env f)"
      using processFile_try_throws [of env config f srcDir] by simp
    with Inl Cons show ?thesis by (auto simp: processFile_never_rejects)
  next
    case (Inr rule)
    then have "\<not> (isl (readFileSync env f) \<or> isl (statSync_mtime env f))"
      using processFile_try_throws [of env config f srcDir] by simp
    with Inr Cons processFile_try_filePath [OF Inr] show ?thesis
      by (auto simp: processFile_never_rejects)
  qed
qed

lemma secondPass_paths:
  "map filePath (fst (foldl (secondPassStep config files) st rules))
     = map filePath (fst st) @ map filePath rules"
  by (induction rules arbitrary: st) (simp_all add: secondPassStep_def Let_def)

text \<open>
  Claim C1 as worded fails. With two files of which the second cannot be read, the
  document of the second is left out and the first is kept, and the sequence of errors is
  empty: no error string is recorded for the file that failed.
\<close>

theorem loadContent_records_no_error_counterexample:
  "readFileSync mixedEnv ''/site/.cursor/rules/bad.mdc'' = Inl ''Bad file error''
   \<and> errors (loadContent mixedEnv sampleConfig ''/site'') = []
   \<and> map filePath (content (loadContent mixedEnv sampleConfig ''/site'')) = [''good.mdc'']"
  by code_simp

text \<open>
  Claim C1 (as the code has it). When the source directory exists, every file whose
  transform throws, in \<open>readFileSync\<close> or \<open>statSync\<close>, is left out of the output, the other
  files are all processed, in order, and no error string is recorded: \<open>processFile\<close>
  catches the failure itself and returns \<open>null\<close>. The loop records one error string for a
  file only when the function in the place of \<open>processFile\<close> rejects.
\<close>

theorem loadContent_isolates_failures:
  assumes "existsSync env (path_resolve env projectRoot (sourceDir config))"
  shows "errors (loadContent env config projectRoot) = []
     \<and> map filePath (content (loadContent env config projectRoot))
        = map (path_relative env (path_resolve env projectRoot (sourceDir config)))
            (filter (\<lambda>file. \<not> isl (readFileSync env file) \<and> \<not> isl (statSync_mtime env file))
               (discoverMdcFiles env (path_resolve env projectRoot (sourceDir config))))
     \<and> errors (loadContent_with pf env config projectRoot)
        = concat (map (\<lambda>file. case pf file (path_resolve env projectRoot (sourceDir config)) of
                                 Inl errorMessage \<Rightarrow>
                                   [''Error processing file '' @ file @ '': '' @ errorMessage]
                               | Inr r \<Rightarrow> [])
                    (discoverMdcFiles env (path_resolve env projectRoot (sourceDir config))))"
proof -
  let ?d = "path_resolve env projectRoot (sourceDir config)"
  let ?fs = "discoverMdcFiles env ?d"
  have e: "errors (loadContent env config projectRoot) = []"
    using assms
    by (simp add: loadContent_def loadContent_with_def Let_def firstPass_errors processFile_never_rejects)
  have c: "map filePath (content (loadContent env config projectRoot))
        = map (path_relative env ?d)
            (filter (\<lambda>file. \<not> isl (readFileSync env file) \<and> \<not> isl (statSync_mtime env file)) ?fs)"
    using assms
    by (simp add: loadContent_def loadContent_with_def Let_def secondPass_paths firstPass_content
        firstPass_processFile_paths)
  have g: "errors (loadContent_with pf env config projectRoot)
        = concat (map (\<lambda>file. case pf file ?d of
                                 Inl errorMessage \<Rightarrow>
                                   [''Error processing file '' @ file @ '': '' @ errorMessage]
                               | Inr r \<Rightarrow> []) ?fs)"
    using assms by (simp add: loadContent_with_def Let_def firstPass_errors)
  from e c g show ?thesis by (intro conjI)
qed

theorem loadContent_isolates_failures_witness:
  "existsSync mixedEnv (path_resolve mixedEnv ''/site'' (sourceDir sampleConfig))
   \<and> errors (loadContent mixedEnv sampleConfig ''/site'') = []
   \<and> map filePath (content (loadContent mixedEnv sampleConfig ''/site''))
      = map (path_relative mixedEnv (path_resolve mixedEnv ''/site'' (sourceDir sampleConfig)))
          (filter (\<lambda>file. \<not> isl (readFileSync mixedEnv file) \<and> \<not> isl (statSync_mtime mixedEnv file))
             (discoverMdcFiles mixedEnv (path_resolve mixedEnv ''/site'' (sourceDir sampleConfig))))
   \<and> map (path_relative mixedEnv (path_resolve mixedEnv ''/site'' (sourceDir sampleConfig)))
          (filter (\<lambda>file. \<not> isl (readFileSync mixedEnv file) \<and> \<not> isl (statSync_mtime mixedEnv file))
             (discoverMdcFiles mixedEnv (path_resolve mixedEnv ''/site'' (sourceDir sampleConfig))))
      = [''good.mdc'']
   \<and> errors (loadContent_with rejectingProcessFile mixedEnv sampleConfig ''/site'')
      = [''Error processing file /site/.cursor/rules/good.mdc: Processing error'',
         ''Error processing file /site/.cursor/rules/bad.mdc: Processing error'']"
proof -
  have h: "existsSync mixedEnv (path_resolve mixedEnv ''/site'' (sourceDir sampleConfig))"
    by (simp add: mixedEnv_def)
  note spec = loadContent_isolates_failures [OF h, where pf = rejectingProcessFile]
  have c1: "errors (loadContent mixedEnv sampleConfig ''/site'') = []"
    using spec by (rule conjunct1)
  have c2: "map filePath (content (loadContent mixedEnv sampleConfig ''/site''))
      = map (path_relative mixedEnv (path_resolve mixedEnv ''/site'' (sourceDir sampleConfig)))
          (filter (\<lambda>file. \<not> isl (readFileSync mixedEnv file) \<and> \<not> isl (statSync_mtime mixedEnv file))
             (discoverMdcFiles mixedEnv (path_resolve mixedEnv ''/site'' (sourceDir sampleConfig))))"
    using spec by (rule conjunct2 [THEN conjunct1])
  have v2: "map (path_relative mixedEnv (path_resolve mixedEnv ''/site'' (sourceDir sampleConfig)))
          (filter (\<lambda>file. \<not> isl (readFileSync mixedEnv file) \<and> \<not> isl (statSync_mtime mixedEnv file))
             (discoverMdcFiles mixedEnv (path_resolve mixedEnv ''/site'' (sourceDir sampleConfig))))
      = [''good.mdc'']"
    by code_simp
  have c3: "errors (loadContent_with rejectingProcessFile mixedEnv sampleConfig ''/site'')
      = [''Error processing file /site/.cursor/rules/good.mdc: Processing error'',
         ''Error processing file /site/.cursor/rules/bad.mdc: Processing error'']"
    by code_simp
  from h c1 c2 v2 c3 show ?thesis by (intro conjI)
qed

section \<open>Properties of the link rewriting\<close>

lemma expand_replacement_plain:
  "CHR ''$'' \<notin> set r \<Longrightarrow> expand_replacement r m b a = r"
  by (induction r m b a rule: expand_replacement.induct) auto

lemma split_first_sound: "split_first s p = Some (a, b) \<Longrightarrow> s = a @ p @ b"
proof (induction s arbitrary: a)
  case Nil
  then show ?case by (simp split: if_splits)
next
  case (Cons c cs)
  show ?case
  proof (cases "prefix p (c # cs)")
    case True
    with Cons.prems show ?thesis by (auto simp: prefix_def)
  next
    case False
    with Cons.prems obtain a' where "split_first cs p = Some (a', b)" and "a = c # a'"
      by (cases "split_first cs p") auto
    with Cons.IH [of a'] show ?thesis by simp
  qed
qed

lemma replace_str_plain:
  assumes "split_first s p = Some (a, b)" and "CHR ''$'' \<notin> set r"
  shows "replace_str s p r = a @ r @ b"
  using assms by (simp add: replace_str_def expand_replacement_plain)

lemma star_then_lit:
  assumes "list_all p xs" and "\<not> p y"
  shows "concat (map (ms (Lit [y])) (map (set_capture n b0) (star_states p bef (xs @ y # ys) caps)))
     = [(y # rev xs @ bef, ys,
         caps(n \<mapsto> rev (take (length (rev xs @ bef) - length b0) (rev xs @ bef))))]"
  using assms
proof (induction xs arbitrary: bef)
  case Nil
  then show ?case by (auto simp: ms_Lit set_capture_def fun_eq_iff)
next
  case (Cons x xs)
  then have "x \<noteq> y" by auto
  with Cons show ?case by (auto simp: ms_Lit set_capture_def fun_eq_iff)
qed

lemma ms_anchor_text_at:
  assumes "CHR ''<'' \<notin> set lbl"
  shows "ms anchor_text_re (bef, ''>'' @ lbl @ ''<'' @ ctag, no_captures)
     = [(CHR ''<'' # rev lbl @ CHR ''>'' # bef, ctag, no_captures(1 \<mapsto> lbl))]"
proof -
  have all: "list_all not_lt lbl" using assms by (auto simp: list_all_iff not_lt_def)
  have no: "\<not> not_lt (CHR ''<'')" by (simp add: not_lt_def)
  have "ms anchor_text_re (bef, ''>'' @ lbl @ ''<'' @ ctag, no_captures)
      = concat (map (ms (Lit ''<''))
          (map (set_capture 1 (CHR ''>'' # bef))
             (star_states not_lt (CHR ''>'' # bef) (lbl @ CHR ''<'' # ctag) no_captures)))"
    by (simp add: anchor_text_re_def ms_Lit ms_Rep_Atom del: ms.simps(5))
  also have "\<dots> = [(CHR ''<'' # rev lbl @ CHR ''>'' # bef, ctag,
         no_captures(1 \<mapsto> rev (take (length (rev lbl @ CHR ''>'' # bef) - length (CHR ''>'' # bef))
                                    (rev lbl @ CHR ''>'' # bef))))]"
    by (rule star_then_lit [OF all no])
  finally show ?thesis by simp
qed

lemma ms_anchor_text_skip:
  "c \<noteq> CHR ''>'' \<Longrightarrow> ms anchor_text_re (bef, c # rest, caps) = []"
  by (simp add: anchor_text_re_def ms_Lit)

lemma search_anchor_text:
  assumes "CHR ''>'' \<notin> set otag" and "CHR ''<'' \<notin> set lbl"
  shows "search anchor_text_re bef (otag @ ''>'' @ lbl @ ''<'' @ ctag)
     = Some (''>'' @ lbl @ ''<'', no_captures(1 \<mapsto> lbl))"
  using assms(1)
proof (induction otag arbitrary: bef)
  case Nil
  have "ms anchor_text_re (bef, CHR ''>'' # lbl @ CHR ''<'' # ctag, no_captures)
     = [(CHR ''<'' # rev lbl @ CHR ''>'' # bef, ctag, no_captures(1 \<mapsto> lbl))]"
    using ms_anchor_text_at [OF assms(2), of bef ctag] by simp
  then show ?case by (auto simp: mk_match_def fun_eq_iff)
next
  case (Cons c otag)
  then have "c \<noteq> CHR ''>''" by auto
  then have "ms anchor_text_re (bef, c # otag @ ''>'' @ lbl @ ''<'' @ ctag, no_captures) = []"
    by (rule ms_anchor_text_skip)
  with Cons show ?case by simp
qed

lemma resolveMatch_anchor_step:
  assumes "snd m 1 = Some anchorTag" and "snd m 2 = Some link"
    and "anchorTag = otag @ ''>'' @ lbl @ ''<'' @ ctag"
    and "CHR ''>'' \<notin> set otag" and "CHR ''<'' \<notin> set lbl" and "CHR ''$'' \<notin> set lbl"
    and "CHR ''$'' \<notin> set (resolved (resolveSingleLink config files link))"
    and "split_first body anchorTag = Some (pre, post)"
  shows "body = pre @ anchorTag @ post
     \<and> resolveMatch config files (body, refs) m
        = (pre @ ''<a href='' @ [DQUOTE] @ resolved (resolveSingleLink config files link) @ [DQUOTE]
             @ ''>'' @ lbl @ ''</a>'' @ post,
           refs @ [resolveSingleLink config files link])"
proof -
  have frame: "body = pre @ anchorTag @ post"
    using assms(8) by (rule split_first_sound)
  have tm: "re_match anchor_text_re anchorTag = Some (''>'' @ lbl @ ''<'', no_captures(1 \<mapsto> lbl))"
    unfolding re_match_def assms(3) using assms(4,5) by (rule search_anchor_text)
  let ?new = "''<a href='' @ [DQUOTE] @ resolved (resolveSingleLink config files link) @ [DQUOTE]
             @ ''>'' @ lbl @ ''</a>''"
  have plain: "CHR ''$'' \<notin> set ?new" using assms(6,7) by simp
  have "replace_str body anchorTag ?new = pre @ ?new @ post"
    using assms(8) plain by (rule replace_str_plain)
  then have "resolveMatch config files (body, refs) m
        = (pre @ ?new @ post, refs @ [resolveSingleLink config files link])"
    by (simp add: resolveMatch_def assms(1,2) tm Let_def del: One_nat_def)
  with frame show ?thesis by simp
qed

lemma example_match:
  "length (matchAll MDC_LINK_PATTERN anchorBodyExample) = 1
   \<and> snd (hd (matchAll MDC_LINK_PATTERN anchorBodyExample)) 1
       = Some (''<a href='' @ [DQUOTE] @ ''./main.mdc'' @ [DQUOTE] @ ''>main</a>'')
   \<and> snd (hd (matchAll MDC_LINK_PATTERN anchorBodyExample)) 2 = Some ''./main.mdc''
   \<and> split_first anchorBodyExample (''<a href='' @ [DQUOTE] @ ''./main.mdc'' @ [DQUOTE] @ ''>main</a>'')
       = Some (''See '', [])"
  by code_simp

lemma example_target: "targetFilePath config ''./main.mdc'' = ''main.mdc''"
  by (simp add: targetFilePath_def startsWith_def includes_str_simps)

lemma example_resolve:
  assumes "has files ''main.mdc''"
  shows "resolveSingleLink config files ''./main.mdc''
     = \<lparr>original = ''./main.mdc'', resolved = path_join [crossReferenceBase config, ''main''],
        isValid = True\<rparr>"
  using assms
  by (simp add: resolveSingleLink_def example_target validateTargetExists_def stripMdc_def
      normalizeSeparators_def suffix_to_prefix)




end
